theory Spec2Isabelle
  imports Main
begin

section \<open>JavaScript string primitives used by bin/ppm.js\<close>

text \<open>
  \<^verbatim>\<open>String.prototype.split\<close> with a one-character separator. The result is never
  the empty array: splitting the empty string gives one empty piece.
\<close>

fun js_split :: "char \<Rightarrow> string \<Rightarrow> string list" where
  "js_split c [] = [[]]"
| "js_split c (x # xs) =
     (if x = c then [] # js_split c xs
      else (case js_split c xs of
              [] \<Rightarrow> [[x]]
            | y # ys \<Rightarrow> (x # y) # ys))"

text \<open>\<^verbatim>\<open>String.prototype.startsWith\<close>.\<close>

definition startsWith :: "string \<Rightarrow> string \<Rightarrow> bool" where
  "startsWith s p = (take (length p) s = p)"

text \<open>
  JavaScript truthiness of a value that is a string or \<^verbatim>\<open>undefined\<close>:
  \<^verbatim>\<open>undefined\<close> and the empty string are falsy.
\<close>

definition truthy :: "string option \<Rightarrow> bool" where
  "truthy v = (case v of None \<Rightarrow> False | Some s \<Rightarrow> s \<noteq> [])"

section \<open>Specifier parsing (the first lines of installPackage)\<close>

text \<open>
  \<^verbatim>\<open>
  let [pkg, range] = pkgSpec.split('@');
  if (pkg === '' && range) {
    pkg = '@' + range;
    range = undefined;
  }
  \<close>
  The destructuring reads the first two pieces only; a missing second piece is
  \<^verbatim>\<open>undefined\<close>, modelled as \<open>None\<close>.
\<close>

definition parseSpec :: "string \<Rightarrow> string \<times> string option" where
  "parseSpec pkgSpec =
     (case js_split CHR ''@'' pkgSpec of
        [] \<Rightarrow> ([], None)
      | pkg # rest \<Rightarrow>
          (let rng = (case rest of [] \<Rightarrow> None | r # _ \<Rightarrow> Some r)
           in if pkg = [] \<and> truthy rng
              then (CHR ''@'' # the rng, None)
              else (pkg, rng)))"

text \<open>Re-joining a parsed pair with \<^verbatim>\<open>@\<close>; an absent range adds nothing.\<close>

definition joinSpec :: "string \<times> string option \<Rightarrow> string" where
  "joinSpec p = (case snd p of None \<Rightarrow> fst p | Some r \<Rightarrow> fst p @ ''@'' @ r)"

section \<open>Version resolution\<close>

text \<open>
  \<^verbatim>\<open>
  const semverSatisfies = (version, range) => {
    if (!range || range === 'latest') return true;
    if (range.startsWith('^')) {
      const major = range.slice(1).split('.')[0];
      return version.startsWith(major + '.');
    }
    if (range.startsWith('~')) {
      const [major, minor] = range.slice(1).split('.');
      return version.startsWith(major + '.' + minor + '.');
    }
    return version === range;
  };
  \<close>
  A tilde range with a single component leaves \<^verbatim>\<open>minor\<close> undefined, and string
  concatenation then spells it out as the text \<^verbatim>\<open>undefined\<close>.
\<close>

definition semverSatisfies :: "string \<Rightarrow> string option \<Rightarrow> bool" where
  "semverSatisfies version rng =
     (case rng of
        None \<Rightarrow> True
      | Some r \<Rightarrow>
          if r = [] \<or> r = ''latest'' then True
          else if startsWith r ''^'' then
            (case js_split CHR ''.'' (drop 1 r) of
               [] \<Rightarrow> False
             | major # _ \<Rightarrow> startsWith version (major @ ''.''))
          else if startsWith r ''~'' then
            (case js_split CHR ''.'' (drop 1 r) of
               [] \<Rightarrow> False
             | [major] \<Rightarrow> startsWith version (major @ ''.'' @ ''undefined'' @ ''.'')
             | major # minor # _ \<Rightarrow> startsWith version (major @ ''.'' @ minor @ ''.''))
          else version = r)"

subsection \<open>Numeric-aware comparison and sorting\<close>

text \<open>
  \<^verbatim>\<open>a.localeCompare(b, undefined, { numeric: true })\<close> is a function of the platform
  (the ICU collation of the host), not of this repository. It is modelled for strings of
  ASCII characters: a string is cut into maximal runs of decimal digits, read as numbers,
  and single other characters, and two strings are compared piece by piece, a string
  that is a proper prefix of the other coming first. Numbers compare by value; symbols
  come before numbers and numbers before letters; letters compare in alphabetical order
  whatever their case, and only when two strings differ in nothing else does the case
  decide, lower case first. What the model does not reproduce is the order that the
  collation gives to symbols among themselves (they are compared by character code
  here) and anything that depends on the locale of the host. The properties below that
  depend on the order use keys made of digits and dots. The result is negative, zero
  or positive.
\<close>

datatype piece = Num nat | Chr char

definition is_digit :: "char \<Rightarrow> bool" where
  "is_digit c = ((48::nat) \<le> of_char c \<and> of_char c \<le> (57::nat))"

definition digit_val :: "char \<Rightarrow> nat" where
  "digit_val c = of_char c - (48::nat)"

fun pieces :: "nat option \<Rightarrow> string \<Rightarrow> piece list" where
  "pieces acc [] = (case acc of None \<Rightarrow> [] | Some n \<Rightarrow> [Num n])"
| "pieces acc (c # cs) =
     (if is_digit c
      then pieces (Some (10 * (case acc of None \<Rightarrow> 0 | Some n \<Rightarrow> n) + digit_val c)) cs
      else (case acc of None \<Rightarrow> [] | Some n \<Rightarrow> [Num n]) @ Chr c # pieces None cs)"

definition is_upper :: "char \<Rightarrow> bool" where
  "is_upper c = ((65::nat) \<le> of_char c \<and> of_char c \<le> (90::nat))"

definition is_lower :: "char \<Rightarrow> bool" where
  "is_lower c = ((97::nat) \<le> of_char c \<and> of_char c \<le> (122::nat))"

text \<open>
  The place of a letter in the alphabet, the same for both cases; a character that is
  not a letter has none.
\<close>

definition letter_rank :: "char \<Rightarrow> nat option" where
  "letter_rank c =
     (if is_upper c then Some (of_char c - 65)
      else if is_lower c then Some (of_char c - 97)
      else None)"

definition compare_nat :: "nat \<Rightarrow> nat \<Rightarrow> int" where
  "compare_nat m n = (if m < n then -1 else if n < m then 1 else 0)"

fun compare_piece :: "piece \<Rightarrow> piece \<Rightarrow> int" where
  "compare_piece (Num m) (Num n) = compare_nat m n"
| "compare_piece (Chr a) (Chr b) =
     (case (letter_rank a, letter_rank b) of
        (Some i, Some j) \<Rightarrow> compare_nat i j
      | (Some i, None) \<Rightarrow> 1
      | (None, Some j) \<Rightarrow> -1
      | (None, None) \<Rightarrow> compare_nat (of_char a) (of_char b))"
| "compare_piece (Num m) (Chr b) = (if letter_rank b = None then 1 else -1)"
| "compare_piece (Chr a) (Num n) = (if letter_rank a = None then -1 else 1)"

fun compare_pieces :: "piece list \<Rightarrow> piece list \<Rightarrow> int" where
  "compare_pieces [] [] = 0"
| "compare_pieces [] (q # qs) = -1"
| "compare_pieces (p # ps) [] = 1"
| "compare_pieces (p # ps) (q # qs) =
     (if compare_piece p q = 0 then compare_pieces ps qs else compare_piece p q)"

text \<open>
  The tie-break between two strings that \<open>compare_pieces\<close> finds equal: the first
  letter that is lower case in one and upper case in the other.
\<close>

fun compare_case :: "piece list \<Rightarrow> piece list \<Rightarrow> int" where
  "compare_case (Chr a # ps) (Chr b # qs) =
     (if is_lower a \<and> is_upper b then -1
      else if is_upper a \<and> is_lower b then 1
      else compare_case ps qs)"
| "compare_case (p # ps) (q # qs) = compare_case ps qs"
| "compare_case ps qs = 0"

definition localeCompareNumeric :: "string \<Rightarrow> string \<Rightarrow> int" where
  "localeCompareNumeric a b =
     (if compare_pieces (pieces None a) (pieces None b) = 0
      then compare_case (pieces None a) (pieces None b)
      else compare_pieces (pieces None a) (pieces None b))"

text \<open>
  \<^verbatim>\<open>Array.prototype.sort(cmp)\<close> is stable: an element goes in front of the first
  element of the already sorted rest that it does not have to follow.
\<close>

fun insert_by :: "('a \<Rightarrow> 'a \<Rightarrow> int) \<Rightarrow> 'a \<Rightarrow> 'a list \<Rightarrow> 'a list" where
  "insert_by cmp x [] = [x]"
| "insert_by cmp x (y # ys) =
     (if cmp x y \<le> 0 then x # y # ys else y # insert_by cmp x ys)"

definition js_sort :: "('a \<Rightarrow> 'a \<Rightarrow> int) \<Rightarrow> 'a list \<Rightarrow> 'a list" where
  "js_sort cmp xs = foldr (insert_by cmp) xs []"

subsection \<open>Registry metadata and the resolver\<close>

text \<open>
  The registry's answer for a package: the \<^verbatim>\<open>dist-tags\<close> object and the
  \<^verbatim>\<open>versions\<close> object, the latter as the list of its keys in the order
  \<^verbatim>\<open>Object.keys\<close> gives them, each with its \<^verbatim>\<open>dist.tarball\<close> address.
\<close>

record metadata =
  distTags :: "(string \<times> string) list"
  versions :: "(string \<times> string) list"

text \<open>
  \<^verbatim>\<open>
  let version = meta['dist-tags'].latest;
  if (range && range !== 'latest') {
    const allVersions = Object.keys(meta.versions).sort((a, b) =>
      b.localeCompare(a, undefined, { numeric: true }));
    const found = allVersions.find(v => semverSatisfies(v, range));
    if (found) version = found;
    else { console.error(...); return; }
  }
  \<close>
  The outcome is the chosen version (absent when the registry names no latest tag), or
  the sorted list of versions for the error message when none satisfies the range. A
  found version that is the empty string is falsy and counts as not found.
\<close>

datatype resolution = Resolved "string option" | NoVersion "string list"

definition allVersions :: "metadata \<Rightarrow> string list" where
  "allVersions meta = js_sort (\<lambda>a b. localeCompareNumeric b a) (map fst (versions meta))"

definition resolveVersion :: "metadata \<Rightarrow> string option \<Rightarrow> resolution" where
  "resolveVersion meta rng =
     (if truthy rng \<and> rng \<noteq> Some ''latest''
      then if truthy (find (\<lambda>v. semverSatisfies v rng) (allVersions meta))
           then Resolved (find (\<lambda>v. semverSatisfies v rng) (allVersions meta))
           else NoVersion (allVersions meta)
      else Resolved (map_of (distTags meta) ''latest''))"

section \<open>The world of the installer\<close>

text \<open>
  The registry client is a collaborator: \<^verbatim>\<open>fetch\<close> either rejects (the registry
  cannot be reached), or answers with \<^verbatim>\<open>res.ok\<close> false, or answers with a body.
\<close>

datatype 'a response = NetworkError | NotOk | Ok 'a

text \<open>
  What the installer reads of an archive is the package's own \<^verbatim>\<open>package.json\<close>:
  absent, not parseable, or parsed, with the entries of its \<^verbatim>\<open>dependencies\<close> object
  in the order \<^verbatim>\<open>for (const dep in deps)\<close> visits them (no such object is the
  empty list). An archive may be one that \<^verbatim>\<open>tar.x\<close> rejects. A cache file holds a
  complete download or the beginning of one.

  \<^verbatim>\<open>tar.x\<close> writes the files of an archive as it reads them, so an extraction that
  fails leaves the files that came before the failure. A damaged archive and the
  beginning of an archive therefore carry the \<^verbatim>\<open>package.json\<close> that is extracted
  from them before \<^verbatim>\<open>tar.x\<close> fails (\<open>NoManifest\<close> when none is).

  A response body is a stream. It delivers an archive, or it errors. The code attaches
  its \<^verbatim>\<open>'error'\<close> listeners to the body only after
  \<^verbatim>\<open>await new Promise(r => setTimeout(r, 100))\<close>, so it matters when the error comes:
  \<open>Broken\<close> is a body that errors partway while the code is piping it, after the
  listeners are attached; \<open>Aborted\<close> is a body that errors during the wait, before
  they are attached, so that no listener of the code sees the error and the body
  neither delivers anything nor ends nor errors afterwards.
\<close>

datatype manifest = NoManifest | BadManifest | Manifest "(string \<times> string) list"

datatype archive = Corrupt manifest | Tar manifest

datatype body = Broken manifest | Aborted | Stream archive

datatype cachefile = Partial manifest | Stored archive

text \<open>
  What does not change during a run: the registry, keyed by package name; the archive
  server, keyed by address; and whether \<^verbatim>\<open>ppm.json\<close> sets
  \<^verbatim>\<open>customSettings.cacheDirectory\<close>.
\<close>

record env =
  registry :: "string \<Rightarrow> metadata response"
  tarballs :: "string \<Rightarrow> body response"
  cacheEnabled :: bool

text \<open>
  \<^verbatim>\<open>prisma.lock\<close> on disk: no file, a file \<^verbatim>\<open>JSON.parse\<close> rejects, or a file
  holding \<^verbatim>\<open>{"dependencies": {...}}\<close>, whose entries are kept in key order.
\<close>

datatype lockfile = Absent | Malformed | Parsed "(string \<times> string) list"

datatype exn = FetchError | TypeError | StreamError | TarError | SyntaxError | ENOENT

text \<open>
  What a run does to the outside, in order: requests to the registry, archive downloads,
  invocations of \<^verbatim>\<open>tar.x\<close> for a package, and the lines written by
  \<^verbatim>\<open>console.log\<close> and \<^verbatim>\<open>console.error\<close>. \<open>InstallFailed\<close> is the line of the
  \<^verbatim>\<open>catch\<close> block of installPackage, \<open>ActionFailed\<close> the line of the
  \<^verbatim>\<open>catch\<close> block of a command. The progress bar is not recorded.
\<close>

datatype event =
    FetchMetadata string
  | DownloadTarball string
  | Extract string
  | ConsoleLog string
  | ConsoleError string
  | InstallFailed string exn
  | ActionFailed string exn

text \<open>
  The state a run threads through: the \<^verbatim>\<open>lock.dependencies\<close> object and the
  \<^verbatim>\<open>installedSet\<close> that installPackage receives by reference, the lock file, the
  module directory, the cache directory and the record of events.

  The module directory is \<open>None\<close> when \<^verbatim>\<open>node_modules\<close> does not exist; otherwise
  it lists the directories below it by their path relative to \<^verbatim>\<open>node_modules\<close>
  (\<^verbatim>\<open>a\<close>, \<^verbatim>\<open>@scope\<close>, \<^verbatim>\<open>@scope/pkg\<close>), each with the
  \<^verbatim>\<open>package.json\<close> found in it. A package name is used as such a path as it is
  written; names that \<^verbatim>\<open>path.join\<close> would normalise (empty, or with \<^verbatim>\<open>.\<close> and
  \<^verbatim>\<open>..\<close> components) are outside the model. The cache directory is \<open>None\<close> when it
  does not exist, otherwise its files by name.
\<close>

record state =
  lock :: "(string \<times> string) list"
  installedSet :: "string set"
  lockFile :: lockfile
  nodeModules :: "(string \<times> manifest) list option"
  cache :: "(string \<times> cachefile) list option"
  trace :: "event list"

subsection \<open>Objects as key lists\<close>

text \<open>
  \<^verbatim>\<open>obj[k] = v\<close>: an existing key keeps its place, a new key goes last. (JavaScript
  lists keys that are array indices first; package names and versions of that form are
  not treated apart.)
\<close>

fun assign :: "'k \<Rightarrow> 'v \<Rightarrow> ('k \<times> 'v) list \<Rightarrow> ('k \<times> 'v) list" where
  "assign k v [] = [(k, v)]"
| "assign k v (p # ps) = (if fst p = k then (k, v) # ps else p # assign k v ps)"

text \<open>\<^verbatim>\<open>delete obj[k]\<close>: only a key of the object's own is removed.\<close>

definition delete :: "'k \<Rightarrow> ('k \<times> 'v) list \<Rightarrow> ('k \<times> 'v) list" where
  "delete k ps = filter (\<lambda>p. fst p \<noteq> k) ps"

text \<open>
  Reading \<^verbatim>\<open>lock.dependencies[pkg]\<close>. The object is a plain one (an object literal, or
  what \<^verbatim>\<open>JSON.parse\<close> returns), so a key of its own gives its value, a name that every
  plain object inherits from \<^verbatim>\<open>Object.prototype\<close> gives the inherited member, and any
  other name gives \<^verbatim>\<open>undefined\<close>.
\<close>

definition objectPrototype :: "string list" where
  "objectPrototype =
     [''constructor'', ''__defineGetter__'', ''__defineSetter__'', ''hasOwnProperty'',
      ''__lookupGetter__'', ''__lookupSetter__'', ''isPrototypeOf'', ''propertyIsEnumerable'',
      ''toString'', ''valueOf'', ''__proto__'', ''toLocaleString'']"

datatype property = Own string | Inherited string

definition getProperty :: "(string \<times> string) list \<Rightarrow> string \<Rightarrow> property option" where
  "getProperty obj k =
     (case map_of obj k of
        Some v \<Rightarrow> Some (Own v)
      | None \<Rightarrow> if k \<in> set objectPrototype then Some (Inherited k) else None)"

text \<open>
  \<^verbatim>\<open>if (lock.dependencies[pkg])\<close>: \<^verbatim>\<open>undefined\<close> and the empty string are falsy; an
  inherited member is a function or an object and is truthy.
\<close>

definition lockHas :: "(string \<times> string) list \<Rightarrow> string \<Rightarrow> bool" where
  "lockHas deps pkg =
     (case getProperty deps pkg of
        None \<Rightarrow> False
      | Some (Own v) \<Rightarrow> v \<noteq> []
      | Some (Inherited k) \<Rightarrow> True)"

text \<open>
  \<^verbatim>\<open>${lock.dependencies[pkg]}\<close> in a template literal: a version as it is, an inherited
  function as the engine prints a native function, the prototype object as
  \<^verbatim>\<open>[object Object]\<close>.
\<close>

definition lockText :: "(string \<times> string) list \<Rightarrow> string \<Rightarrow> string" where
  "lockText deps pkg =
     (case getProperty deps pkg of
        None \<Rightarrow> ''undefined''
      | Some (Own v) \<Rightarrow> v
      | Some (Inherited k) \<Rightarrow>
          if k = ''__proto__'' then ''[object Object]''
          else ''function '' @ (if k = ''constructor'' then ''Object'' else k)
                 @ ''() { [native code] }'')"

definition emit :: "event \<Rightarrow> state \<Rightarrow> state" where
  "emit ev s = s\<lparr>trace := trace s @ [ev]\<rparr>"

subsection \<open>The module directory\<close>

definition dirname :: "string \<Rightarrow> string" where
  "dirname p = rev (drop 1 (dropWhile (\<lambda>c. c \<noteq> CHR ''/'') (rev p)))"

definition entries :: "state \<Rightarrow> (string \<times> manifest) list" where
  "entries s = (case nodeModules s of None \<Rightarrow> [] | Some ds \<Rightarrow> ds)"

text \<open>\<^verbatim>\<open>fs.existsSync(path.join(nodeModules, p))\<close>.\<close>

definition existsDir :: "string \<Rightarrow> state \<Rightarrow> bool" where
  "existsDir p s = (map_of (entries s) p \<noteq> None)"

text \<open>
  \<^verbatim>\<open>fs.rmSync(path.join(nodeModules, p), { recursive: true, force: true })\<close>: the
  directory goes with everything below it; a missing directory is no error.
\<close>

definition rmSync :: "string \<Rightarrow> state \<Rightarrow> state" where
  "rmSync p s =
     (case nodeModules s of
        None \<Rightarrow> s
      | Some ds \<Rightarrow>
          s\<lparr>nodeModules :=
              Some (filter (\<lambda>d. fst d \<noteq> p \<and> \<not> startsWith (fst d) (p @ ''/'')) ds)\<rparr>)"

text \<open>\<^verbatim>\<open>fs.readdirSync(nodeModules)\<close>: the names directly below the module directory.\<close>

definition readdirSync :: "state \<Rightarrow> string list" where
  "readdirSync s = filter (\<lambda>p. CHR ''/'' \<notin> set p) (map fst (entries s))"

section \<open>installPackage\<close>

text \<open>
  \<^verbatim>\<open>
  const cacheDir = ppmConfig.customSettings && ppmConfig.customSettings.cacheDirectory ? ... : null;
  if (cacheDir) {
    if (!fs.existsSync(cacheDir)) fs.mkdirSync(cacheDir, { recursive: true });
  }
  \<close>
\<close>

definition cacheSetup :: "env \<Rightarrow> state \<Rightarrow> state" where
  "cacheSetup e s =
     (if cacheEnabled e \<and> cache s = None then s\<lparr>cache := Some []\<rparr> else s)"

text \<open>
  \<^verbatim>\<open>
  if (lock.dependencies[pkg]) {
    if (!installedSet.has(pkg)) {
      installedSet.add(pkg);
      console.log(`Already installed: ${pkg}@${lock.dependencies[pkg]}`);
    }
    return;
  }
  \<close>
  The test is one of truthiness (\<open>lockHas\<close>): an entry whose value is the empty string
  does not pass it, and a name inherited from \<^verbatim>\<open>Object.prototype\<close> does.
\<close>

definition alreadyInstalled :: "string \<Rightarrow> state \<Rightarrow> state" where
  "alreadyInstalled pkg s =
     (if pkg \<in> installedSet s then s
      else emit (ConsoleLog (''Already installed: '' @ pkg @ ''@'' @ lockText (lock s) pkg))
             (s\<lparr>installedSet := insert pkg (installedSet s)\<rparr>))"

text \<open>
  The \<^verbatim>\<open>catch\<close> block of installPackage:
  \<^verbatim>\<open>console.error(`Install failed for ${pkg}:`, err.message)\<close>. The line of the
  stack trace that it prints after that is not recorded.
\<close>

definition caught :: "string \<Rightarrow> exn \<Rightarrow> state \<Rightarrow> state" where
  "caught pkg x s = emit (InstallFailed pkg x) s"

text \<open>\<^verbatim>\<open>allVersions.slice(0,5).join(', ')\<close>.\<close>

fun join_comma :: "string list \<Rightarrow> string" where
  "join_comma [] = []"
| "join_comma [v] = v"
| "join_comma (v # w # vs) = v @ '', '' @ join_comma (w # vs)"

text \<open>
  The name of a cache file:
  \<^verbatim>\<open>path.join(cacheDir, `${pkg.replace(/\//g, '__')}-${version}.tgz`)\<close>.
\<close>

definition safePkg :: "string \<Rightarrow> string" where
  "safePkg pkg = concat (map (\<lambda>c. if c = CHR ''/'' then ''__'' else [c]) pkg)"

definition tarballName :: "string \<Rightarrow> string \<Rightarrow> string" where
  "tarballName pkg version = safePkg pkg @ ''-'' @ version @ ''.tgz''"

text \<open>
  The part of the \<^verbatim>\<open>try\<close> block up to the end of the extraction either leaves the
  function (an early \<^verbatim>\<open>return\<close> after an error line, or an exception that the
  \<^verbatim>\<open>catch\<close> block reports), or has extracted a version of the package, or is stuck
  in an \<^verbatim>\<open>await\<close> on a promise that never settles.
\<close>

datatype acquired = Failed state | Extracted string state | Stuck state

text \<open>
  What \<^verbatim>\<open>tar.x\<close> is given to read: a stream or a file that makes the extraction
  throw, after the \<^verbatim>\<open>package.json\<close> that came before; one that delivers an archive;
  or a stream that delivers nothing and never ends and never errors.
\<close>

datatype source = Throws exn manifest | Delivers archive | Silent

text \<open>
  The files of the package directory after \<^verbatim>\<open>tar.x\<close> has written what it read. The
  extraction merges into the directory: when it writes no \<^verbatim>\<open>package.json\<close>, the one
  that is there stays.
\<close>

definition unpack :: "string \<Rightarrow> manifest \<Rightarrow> state \<Rightarrow> state" where
  "unpack pkg m s =
     (case m of
        NoManifest \<Rightarrow> s
      | BadManifest \<Rightarrow> s\<lparr>nodeModules := Some (assign pkg m (entries s))\<rparr>
      | Manifest deps \<Rightarrow> s\<lparr>nodeModules := Some (assign pkg m (entries s))\<rparr>)"

text \<open>
  Both extraction paths of the source:
  \<^verbatim>\<open>
  if (!fs.existsSync(nodeModules)) fs.mkdirSync(nodeModules);
  const pkgPath = path.join(nodeModules, pkg);
  if (!fs.existsSync(pkgPath)) fs.mkdirSync(pkgPath);
  await tar.x(...)
  \<close>
  \<^verbatim>\<open>mkdirSync\<close> without \<^verbatim>\<open>recursive\<close> throws when the parent directory is missing.
  An extraction that fails leaves what it has written before it failed. The promise of
  the extraction settles on the \<^verbatim>\<open>'finish'\<close> or the \<^verbatim>\<open>'error'\<close> event; with a source
  that gives neither, it never does.
\<close>

definition extractPackage :: "string \<Rightarrow> string \<Rightarrow> source \<Rightarrow> state \<Rightarrow> acquired" where
  "extractPackage pkg version src s =
     (let s1 = s\<lparr>nodeModules := Some (entries s)\<rparr>
      in if \<not> existsDir pkg s1 \<and> dirname pkg \<noteq> [] \<and> \<not> existsDir (dirname pkg) s1
         then Failed (caught pkg ENOENT s1)
         else
           (let s2 = (if existsDir pkg s1 then s1
                      else s1\<lparr>nodeModules := Some (entries s1 @ [(pkg, NoManifest)])\<rparr>);
                s3 = emit (Extract pkg) s2
            in case src of
                 Throws x m \<Rightarrow> Failed (caught pkg x (unpack pkg m s3))
               | Silent \<Rightarrow> Stuck s3
               | Delivers (Corrupt m) \<Rightarrow> Failed (caught pkg TarError (unpack pkg m s3))
               | Delivers (Tar m) \<Rightarrow> Extracted version (unpack pkg m s3)))"

text \<open>
  The download, \<^verbatim>\<open>if (!useCache) { ... }\<close>:
  \<^verbatim>\<open>
  const tarRes = await fetch(tarballUrl);
  if (!tarRes.ok) { console.error(...); return; }
  await new Promise(r => setTimeout(r, 100));
  if (tarballPath) {
    const fileStream = fs.createWriteStream(tarballPath);
    await new Promise((resolve, reject) => {
      tarRes.body.pipe(fileStream);
      tarRes.body.on('error', reject);
      fileStream.on('finish', resolve);
      fileStream.on('error', reject);
    });
  } else { ... tarRes.body.pipe(extract); tarRes.body.on('error', reject); ... }
  \<close>
  With a cache directory the body is piped into the cache file, which
  \<^verbatim>\<open>fs.createWriteStream\<close> creates, and the package is then extracted from that
  file; an error of the body while it is piped rejects the promise, and nothing removes
  the file, which holds what had arrived. Without a cache directory the body is piped
  into \<^verbatim>\<open>tar.x\<close>. A body that has errored during the wait is piped all the same: the
  file is created, nothing arrives, and neither \<^verbatim>\<open>'finish'\<close> nor \<^verbatim>\<open>'error'\<close>
  follows.
\<close>

definition download :: "env \<Rightarrow> string \<Rightarrow> string \<Rightarrow> string \<Rightarrow> state \<Rightarrow> acquired" where
  "download e pkg version tarballUrl s =
     (let s1 = emit (DownloadTarball tarballUrl) s
      in case tarballs e tarballUrl of
           NetworkError \<Rightarrow> Failed (caught pkg FetchError s1)
         | NotOk \<Rightarrow>
             Failed (emit (ConsoleError
               (''Error: Failed to download tarball for '' @ pkg @ ''@'' @ version @ ''.'')) s1)
         | Ok b \<Rightarrow>
             if cacheEnabled e then
               (case cache s1 of
                  None \<Rightarrow> Failed (caught pkg ENOENT s1)
                | Some files \<Rightarrow>
                    (case b of
                       Broken m \<Rightarrow>
                         Failed (caught pkg StreamError
                           (s1\<lparr>cache := Some (assign (tarballName pkg version) (Partial m) files)\<rparr>))
                     | Aborted \<Rightarrow>
                         Stuck (s1\<lparr>cache :=
                                   Some (assign (tarballName pkg version) (Partial NoManifest) files)\<rparr>)
                     | Stream a \<Rightarrow>
                         extractPackage pkg version (Delivers a)
                           (s1\<lparr>cache := Some (assign (tarballName pkg version) (Stored a) files)\<rparr>)))
             else extractPackage pkg version
                    (case b of
                       Broken m \<Rightarrow> Throws StreamError m
                     | Aborted \<Rightarrow> Silent
                     | Stream a \<Rightarrow> Delivers a) s1)"

text \<open>
  \<^verbatim>\<open>
  let tarballPath = null; let useCache = false;
  if (cacheDir) {
    tarballPath = path.join(cacheDir, `${safePkg}-${version}.tgz`);
    if (fs.existsSync(tarballPath)) useCache = true;
  }
  \<close>
  The cache file that will be used, if there is one.
\<close>

definition cachedFile :: "env \<Rightarrow> string \<Rightarrow> string \<Rightarrow> state \<Rightarrow> cachefile option" where
  "cachedFile e pkg version s =
     (if cacheEnabled e
      then map_of (case cache s of None \<Rightarrow> [] | Some files \<Rightarrow> files) (tarballName pkg version)
      else None)"

text \<open>
  From the request for the metadata to the extraction. A cache file that exists is
  used whatever it holds, and \<^verbatim>\<open>tar.x\<close> fails on one that is not a complete archive.
  A missing latest tag or a version without an entry makes
  \<^verbatim>\<open>meta.versions[version].dist\<close> throw (a \<^verbatim>\<open>versions\<close> object with a key spelled
  \<^verbatim>\<open>undefined\<close> is outside the model).
\<close>

definition acquire :: "env \<Rightarrow> string \<Rightarrow> string option \<Rightarrow> state \<Rightarrow> acquired" where
  "acquire e pkg rng s =
     (let s1 = emit (FetchMetadata pkg) s
      in case registry e pkg of
           NetworkError \<Rightarrow> Failed (caught pkg FetchError s1)
         | NotOk \<Rightarrow>
             Failed (emit (ConsoleError
               (''Error: Package '' @ [CHR 0x27] @ pkg @ [CHR 0x27] @ '' not found in npm registry.'')) s1)
         | Ok meta \<Rightarrow>
             (case resolveVersion meta rng of
                NoVersion avail \<Rightarrow>
                  Failed (emit (ConsoleError
                    (''Error: No version found for '' @ pkg @ ''@'' @ the rng
                       @ ''. Available versions: '' @ join_comma (take 5 avail) @ ''...'')) s1)
              | Resolved None \<Rightarrow> Failed (caught pkg TypeError s1)
              | Resolved (Some version) \<Rightarrow>
                  (case map_of (versions meta) version of
                     None \<Rightarrow> Failed (caught pkg TypeError s1)
                   | Some tarballUrl \<Rightarrow>
                       (case cachedFile e pkg version s1 of
                          None \<Rightarrow> download e pkg version tarballUrl s1
                        | Some (Partial m) \<Rightarrow> extractPackage pkg version (Throws TarError m) s1
                        | Some (Stored a) \<Rightarrow> extractPackage pkg version (Delivers a) s1))))"

text \<open>
  After the extraction:
  \<^verbatim>\<open>
  lock.dependencies[pkg] = version;
  fs.writeFileSync(path.join(process.cwd(), 'prisma.lock'), JSON.stringify(lock, null, 2));
  installedSet.add(pkg);
  \<close>
\<close>

definition recordInstall :: "string \<Rightarrow> string \<Rightarrow> state \<Rightarrow> state" where
  "recordInstall pkg version s =
     s\<lparr>lock := assign pkg version (lock s),
       lockFile := Parsed (assign pkg version (lock s)),
       installedSet := insert pkg (installedSet s)\<rparr>"

text \<open>The \<^verbatim>\<open>package.json\<close> in the directory of a package.\<close>

definition manifestOf :: "string \<Rightarrow> state \<Rightarrow> manifest" where
  "manifestOf pkg s = (case map_of (entries s) pkg of None \<Rightarrow> NoManifest | Some m \<Rightarrow> m)"

text \<open>
  \<^verbatim>\<open>if (depth === 0) console.log(`Installed ${pkg}@${version} and dependencies.`)\<close>
\<close>

definition completed :: "nat \<Rightarrow> string \<Rightarrow> string \<Rightarrow> state \<Rightarrow> state" where
  "completed depth pkg version s =
     (if depth = 0
      then emit (ConsoleLog (''Installed '' @ pkg @ ''@'' @ version @ '' and dependencies.'')) s
      else s)"

text \<open>
  installPackage and its loop over the dependencies of the extracted package,
  \<^verbatim>\<open>
  for (const dep in deps) {
    if (!installedSet.has(dep)) {
      await installPackage(dep + '@' + deps[dep], lock, installedSet, depth + 1);
    }
  }
  \<close>
  The recursion follows the dependencies that the archives declare, so nothing in the
  function bounds it: the first argument is the number of nested calls allowed, and
  \<open>None\<close> says that it was used up. A call that is not cut short either returns
  (\<open>Done\<close>, with the state it leaves) or never settles (\<open>Hung\<close>, with the state at
  the \<^verbatim>\<open>await\<close> in which it stays); a caller that awaits a call that never settles
  never settles either. The two copies of the code after the extraction (with and
  without a cache) are the same and are modelled once.
\<close>

datatype run = Done state | Hung state

fun installPackage :: "nat \<Rightarrow> env \<Rightarrow> string \<Rightarrow> nat \<Rightarrow> state \<Rightarrow> run option"
  and installDeps :: "nat \<Rightarrow> env \<Rightarrow> (string \<times> string) list \<Rightarrow> nat \<Rightarrow> state \<Rightarrow> run option"
where
  "installPackage 0 e pkgSpec depth s = None"
| "installPackage (Suc n) e pkgSpec depth s =
     (let pkg = fst (parseSpec pkgSpec);
          rng = snd (parseSpec pkgSpec);
          s0 = cacheSetup e s
      in if lockHas (lock s0) pkg then Some (Done (alreadyInstalled pkg s0))
         else
           (case acquire e pkg rng s0 of
              Failed s1 \<Rightarrow> Some (Done s1)
            | Stuck s1 \<Rightarrow> Some (Hung s1)
            | Extracted version s1 \<Rightarrow>
                (let s2 = recordInstall pkg version s1
                 in case manifestOf pkg s2 of
                      NoManifest \<Rightarrow> Some (Done (completed depth pkg version s2))
                    | BadManifest \<Rightarrow> Some (Done (caught pkg SyntaxError s2))
                    | Manifest deps \<Rightarrow>
                        (case installDeps n e deps (Suc depth) s2 of
                           None \<Rightarrow> None
                         | Some (Hung s3) \<Rightarrow> Some (Hung s3)
                         | Some (Done s3) \<Rightarrow> Some (Done (completed depth pkg version s3))))))"
| "installDeps n e [] depth s = Some (Done s)"
| "installDeps n e (d # ds) depth s =
     (if fst d \<in> installedSet s then installDeps n e ds depth s
      else
        (case installPackage n e (fst d @ ''@'' @ snd d) depth s of
           None \<Rightarrow> None
         | Some (Hung s') \<Rightarrow> Some (Hung s')
         | Some (Done s') \<Rightarrow> installDeps n e ds depth s'))"

section \<open>The commands\<close>

text \<open>
  How the action of a command ends: it returns and the process ends when nothing is
  left to do, with exit code 0; it calls \<^verbatim>\<open>process.exit\<close>; an exception leaves
  it, which no code of the repository handles; or it stays in an \<^verbatim>\<open>await\<close> that
  never settles.
\<close>

datatype outcome = Returned | Exit nat | Unhandled exn | Stalled

text \<open>
  \<^verbatim>\<open>
  let lock = { dependencies: {} };
  if (fs.existsSync(lockFile)) lock = JSON.parse(fs.readFileSync(lockFile));
  \<close>
\<close>

definition loadLock :: "lockfile \<Rightarrow> exn + (string \<times> string) list" where
  "loadLock f = (case f of Absent \<Rightarrow> Inr [] | Malformed \<Rightarrow> Inl SyntaxError | Parsed deps \<Rightarrow> Inr deps)"

subsection \<open>install\<close>

text \<open>
  \<^verbatim>\<open>
  for (const [dep, version] of pkgs) {
    await installPackage(dep + '@' + version, lock, installedSet);
  }
  \<close>
  over the entries the lock had when the loop started.
\<close>

fun installAll :: "nat \<Rightarrow> env \<Rightarrow> (string \<times> string) list \<Rightarrow> state \<Rightarrow> run option" where
  "installAll n e [] s = Some (Done s)"
| "installAll n e (p # ps) s =
     (case installPackage n e (fst p @ ''@'' @ snd p) 0 s of
        None \<Rightarrow> None
      | Some (Hung s') \<Rightarrow> Some (Hung s')
      | Some (Done s') \<Rightarrow> installAll n e ps s')"

text \<open>
  What a command does with the end of the calls it awaited: it goes on to its last
  lines, or it stays where they stay.
\<close>

definition finish :: "outcome \<Rightarrow> event \<Rightarrow> run \<Rightarrow> outcome \<times> state" where
  "finish out ev r = (case r of Done s \<Rightarrow> (out, emit ev s) | Hung s \<Rightarrow> (Stalled, s))"

text \<open>
  The action of \<^verbatim>\<open>install [package]\<close>. It has no \<^verbatim>\<open>try\<close> and never calls
  \<^verbatim>\<open>process.exit\<close>. The lock and the set of installed names are new objects of the
  action, so the values these two fields have in the state passed in are not read.
\<close>

definition install_action :: "nat \<Rightarrow> env \<Rightarrow> string option \<Rightarrow> state \<Rightarrow> (outcome \<times> state) option" where
  "install_action n e pkg s =
     (case loadLock (lockFile s) of
        Inl x \<Rightarrow> Some (Unhandled x, s)
      | Inr deps \<Rightarrow>
          (let s0 = s\<lparr>lock := deps, installedSet := {}\<rparr>
           in if truthy pkg
              then map_option (\<lambda>r. case r of Done s' \<Rightarrow> (Returned, s') | Hung s' \<Rightarrow> (Stalled, s'))
                     (installPackage n e (the pkg) 0 s0)
              else if deps = []
              then Some (Returned, emit (ConsoleLog ''No packages in prisma.lock to install.'') s0)
              else map_option
                     (finish Returned (ConsoleLog ''All packages from prisma.lock installed.''))
                     (installAll n e deps s0)))"

subsection \<open>update and upgrade\<close>





text \<open>
  The exit code of the process. An exception that nothing handles ends a Node.js
  process of the versions the repository asks for (18 and later) with code 1. What the
  process does when the action never settles is not modelled.
\<close>

definition exitCode :: "outcome \<Rightarrow> nat option" where
  "exitCode out =
     (case out of Returned \<Rightarrow> Some 0 | Exit c \<Rightarrow> Some c | Unhandled x \<Rightarrow> Some 1 | Stalled \<Rightarrow> None)"

subsection \<open>uninstall\<close>

text \<open>
  \<^verbatim>\<open>
  for (const dep of installed) {
    if (!keep.has(dep)) {
      fs.rmSync(path.join(nodeModules, dep), { recursive: true, force: true });
      pruned++;
    }
  }
  \<close>
  The result is the state and the number of names pruned.
\<close>

fun pruneLoop :: "string list \<Rightarrow> string list \<Rightarrow> state \<Rightarrow> nat \<Rightarrow> state \<times> nat" where
  "pruneLoop keep [] s pruned = (s, pruned)"
| "pruneLoop keep (dep # installed) s pruned =
     (if dep \<in> set keep then pruneLoop keep installed s pruned
      else pruneLoop keep installed (rmSync dep s) (Suc pruned))"

text \<open>Decimal digits of a number, for the line that reports the count.\<close>

fun show_nat :: "nat \<Rightarrow> string" where
  "show_nat n =
     (if n < 10 then [char_of (48 + n)]
      else show_nat (n div 10) @ [char_of (48 + n mod 10)])"

definition prune :: "string list \<Rightarrow> state \<Rightarrow> state" where
  "prune keep s =
     (if nodeModules s = None then s
      else
        (let r = pruneLoop keep (readdirSync s) s 0
         in if 0 < snd r
            then emit (ConsoleLog (''Pruned '' @ show_nat (snd r) @ '' unused dependenc''
                         @ (if snd r = 1 then ''y'' else ''ies'') @ ''.'')) (fst r)
            else fst r))"

text \<open>
  The action of \<^verbatim>\<open>uninstall <package>\<close>. The lock file is rewritten only when it
  exists; when it does not, the lock of the action is the empty one. An exception ends
  in the \<^verbatim>\<open>catch\<close> block, after the directory of the package has been removed.
\<close>

definition uninstall_action :: "string \<Rightarrow> state \<Rightarrow> state" where
  "uninstall_action pkg s =
     (let removed = existsDir pkg s;
          s1 = (if removed then rmSync pkg s else s)
      in case lockFile s1 of
           Malformed \<Rightarrow> emit (ActionFailed ''Uninstall failed:'' SyntaxError) s1
         | Absent \<Rightarrow>
             emit (ConsoleLog (if removed then ''Uninstalled '' @ pkg else pkg @ '' is not installed.''))
               (prune [] s1)
         | Parsed deps \<Rightarrow>
             emit (ConsoleLog (if removed then ''Uninstalled '' @ pkg else pkg @ '' is not installed.''))
               (prune (map fst (delete pkg deps)) (s1\<lparr>lockFile := Parsed (delete pkg deps)\<rparr>)))"

section \<open>Vocabulary of the properties\<close>

text \<open>The state in which the first part of installPackage ends, whichever way it ends.\<close>

fun stateOf :: "acquired \<Rightarrow> state" where
  "stateOf (Failed s) = s"
| "stateOf (Extracted v s) = s"
| "stateOf (Stuck s) = s"

text \<open>The state a call leaves, whether it returns or never settles.\<close>

fun stateOfRun :: "run \<Rightarrow> state" where
  "stateOfRun (Done s) = s"
| "stateOfRun (Hung s) = s"

text \<open>The events that are a download.\<close>

fun isDownload :: "event \<Rightarrow> bool" where
  "isDownload (DownloadTarball u) = True"
| "isDownload ev = False"

text \<open>The events that are a registry request, a download or an extraction.\<close>

fun networkOrExtract :: "event \<Rightarrow> bool" where
  "networkOrExtract (FetchMetadata p) = True"
| "networkOrExtract (DownloadTarball u) = True"
| "networkOrExtract (Extract p) = True"
| "networkOrExtract ev = False"

text \<open>The lines that report an error.\<close>

fun errorReport :: "event \<Rightarrow> bool" where
  "errorReport (ConsoleError m) = True"
| "errorReport (InstallFailed p x) = True"
| "errorReport ev = False"



text \<open>The registry request and the extraction for one package name.\<close>

definition concerns :: "string \<Rightarrow> event \<Rightarrow> bool" where
  "concerns p ev = (ev = FetchMetadata p \<or> ev = Extract p)"

text \<open>
  What a run leaves alone for a package that the lock already holds: its lock entry and
  the requests and extractions made for it; and the set of installed names only grows.
\<close>

definition keeps :: "string \<Rightarrow> state \<Rightarrow> state \<Rightarrow> bool" where
  "keeps p s s' =
     (map_of (lock s') p = map_of (lock s) p
      \<and> filter (concerns p) (trace s') = filter (concerns p) (trace s)
      \<and> installedSet s \<subseteq> installedSet s')"

text \<open>The cache directory exists if the configuration names one.\<close>

definition ready :: "env \<Rightarrow> state \<Rightarrow> bool" where
  "ready e s = (cacheEnabled e \<longrightarrow> cache s \<noteq> None)"


subsection \<open>Example worlds\<close>

text \<open>A project directory with no lock file, no module directory and no cache.\<close>

definition freshProject :: state where
  "freshProject =
     \<lparr>lock = [], installedSet = {}, lockFile = Absent, nodeModules = None, cache = None,
      trace = []\<rparr>"

text \<open>Metadata with a single version, which is also the latest.\<close>

definition singleVersion :: "string \<Rightarrow> string \<Rightarrow> metadata" where
  "singleVersion v url = \<lparr>distTags = [(''latest'', v)], versions = [(v, url)]\<rparr>"

text \<open>
  A registry with two packages that depend on each other, \<^verbatim>\<open>a\<close> at 1.0.0 and
  \<^verbatim>\<open>b\<close> at 2.0.0; every other name is unknown to it. No cache is configured.
\<close>

definition cycleEnv :: env where
  "cycleEnv =
     \<lparr>registry = (\<lambda>name.
        if name = ''a'' then Ok (singleVersion ''1.0.0'' ''https://r/a.tgz'')
        else if name = ''b'' then Ok (singleVersion ''2.0.0'' ''https://r/b.tgz'')
        else NotOk),
      tarballs = (\<lambda>url.
        if url = ''https://r/a.tgz'' then Ok (Stream (Tar (Manifest [(''b'', ''^2'')])))
        else if url = ''https://r/b.tgz'' then Ok (Stream (Tar (Manifest [(''a'', ''^1'')])))
        else NotOk),
      cacheEnabled = False\<rparr>"

text \<open>A registry that cannot be reached.\<close>

definition offlineEnv :: env where
  "offlineEnv =
     \<lparr>registry = (\<lambda>name. NetworkError), tarballs = (\<lambda>url. NetworkError),
      cacheEnabled = False\<rparr>"

text \<open>
  A cache is configured, and the download of the only version of \<^verbatim>\<open>a\<close> errors
  partway, while the code pipes it and before a \<^verbatim>\<open>package.json\<close> has arrived.
\<close>

definition brokenEnv :: env where
  "brokenEnv =
     \<lparr>registry = (\<lambda>name.
        if name = ''a'' then Ok (singleVersion ''1.0.0'' ''https://r/a.tgz'') else NotOk),
      tarballs = (\<lambda>url. if url = ''https://r/a.tgz'' then Ok (Broken NoManifest) else NotOk),
      cacheEnabled = True\<rparr>"

text \<open>
  A registry with \<^verbatim>\<open>root\<close>, which depends on \<^verbatim>\<open>flaky\<close> and on \<^verbatim>\<open>leaf\<close>, in
  this order. The archive of \<^verbatim>\<open>leaf\<close> is delivered; the body of the archive of
  \<^verbatim>\<open>flaky\<close> errors while the code waits, before it listens. No cache is configured.
\<close>

definition abortedEnv :: env where
  "abortedEnv =
     \<lparr>registry = (\<lambda>name.
        if name = ''root'' then Ok (singleVersion ''1.0.0'' ''https://r/root.tgz'')
        else if name = ''flaky'' then Ok (singleVersion ''1.0.0'' ''https://r/flaky.tgz'')
        else if name = ''leaf'' then Ok (singleVersion ''1.0.0'' ''https://r/leaf.tgz'')
        else NotOk),
      tarballs = (\<lambda>url.
        if url = ''https://r/root.tgz''
        then Ok (Stream (Tar (Manifest [(''flaky'', ''^1''), (''leaf'', ''^1'')])))
        else if url = ''https://r/flaky.tgz'' then Ok Aborted
        else if url = ''https://r/leaf.tgz'' then Ok (Stream (Tar NoManifest))
        else NotOk),
      cacheEnabled = False\<rparr>"

text \<open>
  The same registry, except that it does not know \<^verbatim>\<open>flaky\<close>.
\<close>

definition missingEnv :: env where
  "missingEnv =
     abortedEnv\<lparr>registry := (\<lambda>name. if name = ''flaky'' then NotOk else registry abortedEnv name)\<rparr>"

text \<open>
  The project in which the install of \<^verbatim>\<open>root\<close> from \<open>abortedEnv\<close> into a fresh
  project stays, and the project that the install of \<^verbatim>\<open>root\<close> from \<open>missingEnv\<close>
  leaves.
\<close>

definition stalledProject :: state where
  "stalledProject =
     \<lparr>lock = [(''root'', ''1.0.0'')],
      installedSet = {''root''},
      lockFile = Parsed [(''root'', ''1.0.0'')],
      nodeModules = Some [(''root'', Manifest [(''flaky'', ''^1''), (''leaf'', ''^1'')]),
                          (''flaky'', NoManifest)],
      cache = None,
      trace = [FetchMetadata ''root'', DownloadTarball ''https://r/root.tgz'', Extract ''root'',
               FetchMetadata ''flaky'', DownloadTarball ''https://r/flaky.tgz'', Extract ''flaky'']\<rparr>"

definition partialProject :: state where
  "partialProject =
     \<lparr>lock = [(''root'', ''1.0.0''), (''leaf'', ''1.0.0'')],
      installedSet = {''root'', ''leaf''},
      lockFile = Parsed [(''root'', ''1.0.0''), (''leaf'', ''1.0.0'')],
      nodeModules = Some [(''root'', Manifest [(''flaky'', ''^1''), (''leaf'', ''^1'')]),
                          (''leaf'', NoManifest)],
      cache = None,
      trace = [FetchMetadata ''root'', DownloadTarball ''https://r/root.tgz'', Extract ''root'',
               FetchMetadata ''flaky'',
               ConsoleError (''Error: Package '' @ [CHR 0x27] @ ''flaky'' @ [CHR 0x27]
                               @ '' not found in npm registry.''),
               FetchMetadata ''leaf'', DownloadTarball ''https://r/leaf.tgz'', Extract ''leaf'',
               ConsoleLog ''Installed root@1.0.0 and dependencies.'']\<rparr>"

text \<open>
  A registry with two scoped packages that depend on each other, \<^verbatim>\<open>@s/a\<close> at 1.0.0
  and \<^verbatim>\<open>@s/b\<close> at 2.0.0. No cache is configured.
\<close>

definition scopedCycleEnv :: env where
  "scopedCycleEnv =
     \<lparr>registry = (\<lambda>name.
        if name = ''@s/a'' then Ok (singleVersion ''1.0.0'' ''https://r/s/a.tgz'')
        else if name = ''@s/b'' then Ok (singleVersion ''2.0.0'' ''https://r/s/b.tgz'')
        else NotOk),
      tarballs = (\<lambda>url.
        if url = ''https://r/s/a.tgz'' then Ok (Stream (Tar (Manifest [(''@s/b'', ''^2'')])))
        else if url = ''https://r/s/b.tgz'' then Ok (Stream (Tar (Manifest [(''@s/a'', ''^1'')])))
        else NotOk),
      cacheEnabled = False\<rparr>"

text \<open>A lock that holds \<^verbatim>\<open>a\<close> with an empty version string.\<close>

definition emptyVersionLock :: state where
  "emptyVersionLock =
     freshProject\<lparr>lock := [(''a'', [])], lockFile := Parsed [(''a'', [])]\<rparr>"

text \<open>
  The project after \<^verbatim>\<open>a\<close> has been installed from \<open>cycleEnv\<close> into a fresh project.
\<close>

definition cycleInstalled :: state where
  "cycleInstalled =
     \<lparr>lock = [(''a'', ''1.0.0''), (''b'', ''2.0.0'')],
      installedSet = {''a'', ''b''},
      lockFile = Parsed [(''a'', ''1.0.0''), (''b'', ''2.0.0'')],
      nodeModules = Some [(''a'', Manifest [(''b'', ''^2'')]), (''b'', Manifest [(''a'', ''^1'')])],
      cache = None,
      trace = [FetchMetadata ''a'', DownloadTarball ''https://r/a.tgz'', Extract ''a'',
               FetchMetadata ''b'', DownloadTarball ''https://r/b.tgz'', Extract ''b'',
               ConsoleLog ''Installed a@1.0.0 and dependencies.'']\<rparr>"

section \<open>Properties of the specifier parser\<close>

lemma js_split_nonempty: "js_split c s \<noteq> []"
  by (induction s) (auto split: list.splits)

lemma js_split_no_sep: "c \<notin> set xs \<Longrightarrow> js_split c xs = [xs]"
  by (induction xs) auto

lemma js_split_append: "c \<notin> set xs \<Longrightarrow> js_split c (xs @ c # ys) = xs # js_split c ys"
  by (induction xs) auto

text \<open>A specifier without \<^verbatim>\<open>@\<close> is a name with no range.\<close>

lemma parseSpec_bare: "CHR ''@'' \<notin> set a \<Longrightarrow> parseSpec a = (a, None)"
  by (simp add: parseSpec_def js_split_no_sep truthy_def)

text \<open>The name of an unscoped specifier \<^verbatim>\<open>name@range\<close> is recovered.\<close>

lemma parseSpec_plain:
  assumes "CHR ''@'' \<notin> set name" and "name \<noteq> []"
  shows "fst (parseSpec (name @ ''@'' @ r)) = name"
  using assms js_split_nonempty [of "CHR ''@''" r]
  by (auto simp: parseSpec_def js_split_append Let_def split: list.splits)

text \<open>
  An unscoped specifier whose range has no \<^verbatim>\<open>@\<close> is recovered whole, and joining
  the pair gives the specifier back.
\<close>

lemma parseSpec_roundtrip_unscoped:
  assumes "CHR ''@'' \<notin> set name" and "name \<noteq> []" and "CHR ''@'' \<notin> set r"
  shows "parseSpec (name @ ''@'' @ r) = (name, Some r)
       \<and> joinSpec (parseSpec (name @ ''@'' @ r)) = name @ ''@'' @ r"
  using assms
  by (simp add: parseSpec_def js_split_append js_split_no_sep joinSpec_def)


lemma parseSpec_scoped_range:
  assumes "CHR ''@'' \<notin> set rest" and "rest \<noteq> []"
  shows "snd (parseSpec (CHR ''@'' # rest @ ''@'' @ r)) = None"
  using assms
  by (auto simp: parseSpec_def js_split_append Let_def truthy_def split: list.splits)


text \<open>
  Claim C1. A specifier \<^verbatim>\<open>name@range\<close> is parsed back into its name and its range,
  scoped names included: \<^verbatim>\<open>@scope/pkg@1.0.0\<close> should give the name
  \<^verbatim>\<open>@scope/pkg\<close> and the range \<^verbatim>\<open>1.0.0\<close>. The code reads only the first two
  pieces of the split: for the scoped specifier the second piece becomes the name and
  the range is set to undefined, so the range \<^verbatim>\<open>1.0.0\<close> is lost and joining the pair
  again gives \<^verbatim>\<open>@scope/pkg\<close>, not the specifier.
\<close>

theorem parseSpec_scoped_loses_range:
  "parseSpec ''@scope/pkg@1.0.0'' = (''@scope/pkg'', None)
   \<and> joinSpec (parseSpec ''@scope/pkg@1.0.0'') = ''@scope/pkg''
   \<and> joinSpec (parseSpec ''@scope/pkg@1.0.0'') \<noteq> ''@scope/pkg@1.0.0''"
  by (simp add: parseSpec_def truthy_def joinSpec_def)

section \<open>Properties of the version resolver\<close>

lemma three_keys:
  assumes "distinct ks" and "set ks = {a, b, c}" and "a \<noteq> b" and "a \<noteq> c" and "b \<noteq> c"
  shows "ks \<in> {[a, b, c], [a, c, b], [b, a, c], [b, c, a], [c, a, b], [c, b, a]}"
proof -
  have "length ks = 3"
    using assms distinct_card [of ks] by simp
  then obtain x y z where ks: "ks = [x, y, z]"
    by (auto simp: length_Suc_conv numeral_3_eq_3)
  have mem: "x \<in> {a, b, c}" "y \<in> {a, b, c}" "z \<in> {a, b, c}"
    using assms(2) unfolding ks by auto
  have d: "x \<noteq> y" "x \<noteq> z" "y \<noteq> z"
    using assms(1) unfolding ks by auto
  show ?thesis
    using mem d unfolding ks by auto
qed

lemma dot_is_no_letter:
  "letter_rank CHR ''.'' = None" "\<not> is_upper CHR ''.''" "\<not> is_lower CHR ''.''"
  by (simp_all add: letter_rank_def is_upper_def is_lower_def)

lemma compare_example_versions:
  "localeCompareNumeric ''1.0.0'' ''1.2.0'' = -1"
  "localeCompareNumeric ''1.0.0'' ''2.0.0'' = -1"
  "localeCompareNumeric ''1.2.0'' ''2.0.0'' = -1"
  "localeCompareNumeric ''1.2.0'' ''1.0.0'' = 1"
  "localeCompareNumeric ''2.0.0'' ''1.0.0'' = 1"
  "localeCompareNumeric ''2.0.0'' ''1.2.0'' = 1"
  by (simp_all add: localeCompareNumeric_def is_digit_def digit_val_def compare_nat_def
        dot_is_no_letter)

lemma allVersions_example:
  assumes "distinct (map fst (versions meta))"
    and "set (map fst (versions meta)) = {''1.0.0'', ''1.2.0'', ''2.0.0''}"
  shows "allVersions meta = [''2.0.0'', ''1.2.0'', ''1.0.0'']"
proof -
  have "map fst (versions meta) \<in>
      {[''1.0.0'', ''1.2.0'', ''2.0.0''], [''1.0.0'', ''2.0.0'', ''1.2.0''],
       [''1.2.0'', ''1.0.0'', ''2.0.0''], [''1.2.0'', ''2.0.0'', ''1.0.0''],
       [''2.0.0'', ''1.0.0'', ''1.2.0''], [''2.0.0'', ''1.2.0'', ''1.0.0'']}"
    by (rule three_keys [OF assms]) simp_all
  then consider
      "map fst (versions meta) = [''1.0.0'', ''1.2.0'', ''2.0.0'']"
    | "map fst (versions meta) = [''1.0.0'', ''2.0.0'', ''1.2.0'']"
    | "map fst (versions meta) = [''1.2.0'', ''1.0.0'', ''2.0.0'']"
    | "map fst (versions meta) = [''1.2.0'', ''2.0.0'', ''1.0.0'']"
    | "map fst (versions meta) = [''2.0.0'', ''1.0.0'', ''1.2.0'']"
    | "map fst (versions meta) = [''2.0.0'', ''1.2.0'', ''1.0.0'']"
    by blast
  then show ?thesis
    by cases (simp_all add: allVersions_def js_sort_def compare_example_versions)
qed

text \<open>
  Claim C2. When the versions of the registry metadata are \<^verbatim>\<open>1.0.0\<close>, \<^verbatim>\<open>1.2.0\<close>
  and \<^verbatim>\<open>2.0.0\<close> (in any key order, with any archive addresses and any tags), the
  resolver selects \<^verbatim>\<open>1.2.0\<close> for the range \<^verbatim>\<open>^1\<close> and \<^verbatim>\<open>1.0.0\<close> for the range
  \<^verbatim>\<open>~1.0\<close>. For the range \<^verbatim>\<open>latest\<close> and for an absent range it selects what the
  tag \<^verbatim>\<open>latest\<close> of the registry names, whatever the version keys are.
\<close>

theorem resolveVersion_examples:
  assumes "distinct (map fst (versions meta))"
    and "set (map fst (versions meta)) = {''1.0.0'', ''1.2.0'', ''2.0.0''}"
  shows "resolveVersion meta (Some ''^1'') = Resolved (Some ''1.2.0'')
       \<and> resolveVersion meta (Some ''~1.0'') = Resolved (Some ''1.0.0'')
       \<and> resolveVersion meta (Some ''latest'') = Resolved (map_of (distTags meta) ''latest'')
       \<and> resolveVersion meta None = Resolved (map_of (distTags meta) ''latest'')"
  by (simp add: resolveVersion_def allVersions_example [OF assms] truthy_def
      semverSatisfies_def startsWith_def)

theorem resolveVersion_examples_witness:
  "resolveVersion \<lparr>distTags = [(''latest'', ''1.0.0'')],
       versions = [(''2.0.0'', ''u3''), (''1.0.0'', ''u1''), (''1.2.0'', ''u2'')]\<rparr> (Some ''^1'')
     = Resolved (Some ''1.2.0'')
   \<and> resolveVersion \<lparr>distTags = [(''latest'', ''1.0.0'')],
       versions = [(''2.0.0'', ''u3''), (''1.0.0'', ''u1''), (''1.2.0'', ''u2'')]\<rparr> (Some ''~1.0'')
     = Resolved (Some ''1.0.0'')
   \<and> resolveVersion \<lparr>distTags = [(''latest'', ''1.0.0'')],
       versions = [(''2.0.0'', ''u3''), (''1.0.0'', ''u1''), (''1.2.0'', ''u2'')]\<rparr> None
     = Resolved (Some ''1.0.0'')"
proof -
  let ?m = "\<lparr>distTags = [(''latest'', ''1.0.0'')],
       versions = [(''2.0.0'', ''u3''), (''1.0.0'', ''u1''), (''1.2.0'', ''u2'')]\<rparr>"
  have d: "distinct (map fst (versions ?m))"
    by simp
  have k: "set (map fst (versions ?m)) = {''1.0.0'', ''1.2.0'', ''2.0.0''}"
    by auto
  from resolveVersion_examples [OF d k] show ?thesis
    by simp
qed

section \<open>Properties of uninstall\<close>

text \<open>
  Claim C7. With the lock file \<^verbatim>\<open>{"a":"1.0.0","b":"1.0.0"}\<close> and module directories
  for \<^verbatim>\<open>a\<close>, \<^verbatim>\<open>b\<close> and an orphaned \<^verbatim>\<open>c\<close>, uninstalling \<^verbatim>\<open>a\<close> removes the
  directory of \<^verbatim>\<open>a\<close>, removes \<^verbatim>\<open>a\<close> from the lock file, prunes \<^verbatim>\<open>c\<close>, and
  leaves the directory and the lock entry of \<^verbatim>\<open>b\<close> as they were. The contents of the
  three directories and the rest of the state are arbitrary.
\<close>

theorem uninstall_prunes_orphan:
  "nodeModules (uninstall_action ''a''
      (s\<lparr>lockFile := Parsed [(''a'', ''1.0.0''), (''b'', ''1.0.0'')],
         nodeModules := Some [(''a'', ma), (''b'', mb), (''c'', mc)]\<rparr>)) = Some [(''b'', mb)]
   \<and> lockFile (uninstall_action ''a''
      (s\<lparr>lockFile := Parsed [(''a'', ''1.0.0''), (''b'', ''1.0.0'')],
         nodeModules := Some [(''a'', ma), (''b'', mb), (''c'', mc)]\<rparr>)) = Parsed [(''b'', ''1.0.0'')]"
  by (simp add: uninstall_action_def existsDir_def entries_def rmSync_def delete_def prune_def
      readdirSync_def emit_def startsWith_def Let_def)

subsection \<open>Pruning with an empty keep-set\<close>

lemma entries_rmSync:
  "entries (rmSync p s)
     = filter (\<lambda>d. fst d \<noteq> p \<and> \<not> startsWith (fst d) (p @ ''/'')) (entries s)"
  by (simp add: rmSync_def entries_def split: option.splits)

lemma startsWith_slash: "startsWith k (p @ ''/'') \<Longrightarrow> CHR ''/'' \<in> set k"
  unfolding startsWith_def
  by (metis append_take_drop_id in_set_conv_decomp append.assoc append_Cons)

lemma toplevel_after_rm:
  "filter (\<lambda>p. CHR ''/'' \<notin> set p)
     (map fst (filter (\<lambda>d. fst d \<noteq> p \<and> \<not> startsWith (fst d) (p @ ''/'')) ds))
   = filter (\<lambda>d. d \<noteq> p) (filter (\<lambda>p. CHR ''/'' \<notin> set p) (map fst ds))"
  by (induction ds) (auto dest: startsWith_slash)

lemma readdirSync_rmSync: "readdirSync (rmSync p s) = filter (\<lambda>d. d \<noteq> p) (readdirSync s)"
  unfolding readdirSync_def entries_rmSync by (rule toplevel_after_rm)

lemma readdirSync_emit: "readdirSync (emit ev s) = readdirSync s"
  by (simp add: readdirSync_def entries_def emit_def)

lemma existsDir_emit: "existsDir d (emit ev s) = existsDir d s"
  by (simp add: existsDir_def entries_def emit_def)

text \<open>With nothing to keep, the loop removes every name it is given.\<close>

lemma pruneLoop_readdir:
  "readdirSync (fst (pruneLoop [] xs s n)) = filter (\<lambda>d. d \<notin> set xs) (readdirSync s)"
  by (induction xs arbitrary: s n) (auto simp: readdirSync_rmSync intro: filter_cong)

lemma prune_readdir_none: "readdirSync (prune [] s) = []"
proof (cases "nodeModules s")
  case None
  then show ?thesis
    by (simp add: prune_def readdirSync_def entries_def)
next
  case (Some ds)
  have "readdirSync (fst (pruneLoop [] (readdirSync s) s 0)) = []"
    by (simp add: pruneLoop_readdir)
  with Some show ?thesis
    by (simp add: prune_def Let_def readdirSync_emit)
qed

lemma existsDir_toplevel:
  assumes "existsDir d s" and "CHR ''/'' \<notin> set d"
  shows "d \<in> set (readdirSync s)"
proof -
  from assms(1) have "d \<in> fst ` set (entries s)"
    by (simp add: existsDir_def map_of_eq_None_iff)
  with assms(2) show ?thesis
    by (simp add: readdirSync_def)
qed

lemma uninstall_absent:
  assumes "lockFile s = Absent"
  shows "readdirSync (uninstall_action pkg s) = []"
proof -
  have "lockFile (if existsDir pkg s then rmSync pkg s else s) = Absent"
    using assms by (simp add: rmSync_def split: option.splits)
  then show ?thesis
    by (simp add: uninstall_action_def Let_def readdirSync_emit prune_readdir_none)
qed

lemma uninstall_last_entry:
  assumes "lockFile s = Parsed deps" and "delete pkg deps = []"
  shows "readdirSync (uninstall_action pkg s) = []"
proof -
  have "lockFile (if existsDir pkg s then rmSync pkg s else s) = Parsed deps"
    using assms(1) by (simp add: rmSync_def split: option.splits)
  with assms(2) show ?thesis
    by (simp add: uninstall_action_def Let_def readdirSync_emit prune_readdir_none)
qed

text \<open>
  Claim C10. When the lock file is absent, or holds no dependency once the target is
  removed from it, uninstall leaves nothing directly below the module directory: the
  keep-set of the prune step is the set of the remaining lock keys, which is empty, so
  every name that \<^verbatim>\<open>readdirSync\<close> lists is removed, whether or not it was the target.
\<close>

theorem uninstall_with_empty_lock_prunes_all:
  assumes "lockFile s = Absent \<or> (\<exists>deps. lockFile s = Parsed deps \<and> delete pkg deps = [])"
  shows "readdirSync (uninstall_action pkg s) = []
       \<and> (\<forall>d. CHR ''/'' \<notin> set d \<longrightarrow> \<not> existsDir d (uninstall_action pkg s))"
proof -
  from assms have "readdirSync (uninstall_action pkg s) = []"
    by (auto intro: uninstall_absent uninstall_last_entry)
  moreover have "\<not> existsDir d (uninstall_action pkg s)"
    if "CHR ''/'' \<notin> set d" and "readdirSync (uninstall_action pkg s) = []" for d
    using existsDir_toplevel [of d "uninstall_action pkg s"] that by auto
  ultimately show ?thesis
    by blast
qed

theorem uninstall_with_empty_lock_prunes_all_witness:
  "readdirSync (uninstall_action ''a''
      (freshProject\<lparr>lockFile := Parsed [(''a'', ''1.0.0'')],
         nodeModules := Some [(''a'', NoManifest), (''b'', NoManifest), (''c'', NoManifest)]\<rparr>)) = []
   \<and> \<not> existsDir ''b'' (uninstall_action ''a''
      (freshProject\<lparr>lockFile := Parsed [(''a'', ''1.0.0'')],
         nodeModules := Some [(''a'', NoManifest), (''b'', NoManifest), (''c'', NoManifest)]\<rparr>))"
proof -
  let ?s = "freshProject\<lparr>lockFile := Parsed [(''a'', ''1.0.0'')],
         nodeModules := Some [(''a'', NoManifest), (''b'', NoManifest), (''c'', NoManifest)]\<rparr>"
  have h: "lockFile ?s = Absent
           \<or> (\<exists>deps. lockFile ?s = Parsed deps \<and> delete ''a'' deps = [])"
    by (simp add: delete_def)
  from uninstall_with_empty_lock_prunes_all [OF h] show ?thesis
    by simp
qed

section \<open>Properties of installPackage\<close>

subsection \<open>What each step leaves unchanged\<close>

lemma emit_simps [simp]:
  "lock (emit ev s) = lock s" "installedSet (emit ev s) = installedSet s"
  "lockFile (emit ev s) = lockFile s" "nodeModules (emit ev s) = nodeModules s"
  "cache (emit ev s) = cache s" "trace (emit ev s) = trace s @ [ev]"
  by (simp_all add: emit_def)

lemma caught_simps [simp]:
  "lock (caught p x s) = lock s" "installedSet (caught p x s) = installedSet s"
  "lockFile (caught p x s) = lockFile s" "nodeModules (caught p x s) = nodeModules s"
  "cache (caught p x s) = cache s" "trace (caught p x s) = trace s @ [InstallFailed p x]"
  by (simp_all add: caught_def)

lemma cacheSetup_simps [simp]:
  "lock (cacheSetup e s) = lock s" "installedSet (cacheSetup e s) = installedSet s"
  "lockFile (cacheSetup e s) = lockFile s" "nodeModules (cacheSetup e s) = nodeModules s"
  "trace (cacheSetup e s) = trace s"
  by (simp_all add: cacheSetup_def)

lemma alreadyInstalled_simps [simp]:
  "lock (alreadyInstalled p s) = lock s" "lockFile (alreadyInstalled p s) = lockFile s"
  "nodeModules (alreadyInstalled p s) = nodeModules s" "cache (alreadyInstalled p s) = cache s"
  "installedSet (alreadyInstalled p s) = insert p (installedSet s)"
  "filter networkOrExtract (trace (alreadyInstalled p s)) = filter networkOrExtract (trace s)"
  "filter (concerns q) (trace (alreadyInstalled p s)) = filter (concerns q) (trace s)"
  by (auto simp: alreadyInstalled_def concerns_def)

lemma alreadyInstalled_idem: "p \<in> installedSet s \<Longrightarrow> alreadyInstalled p s = s"
  by (simp add: alreadyInstalled_def)

lemma cacheSetup_alreadyInstalled:
  "cacheSetup e (alreadyInstalled p (cacheSetup e s)) = alreadyInstalled p (cacheSetup e s)"
  by (simp add: cacheSetup_def alreadyInstalled_def emit_def)

lemma map_of_assign: "map_of (assign k v xs) k' = (if k' = k then Some v else map_of xs k')"
  by (induction xs) auto

lemma unpack_simps [simp]:
  "lock (unpack p m s) = lock s" "installedSet (unpack p m s) = installedSet s"
  "lockFile (unpack p m s) = lockFile s" "cache (unpack p m s) = cache s"
  "trace (unpack p m s) = trace s"
  by (simp_all add: unpack_def split: manifest.splits)

text \<open>The lock check passes for every key of the lock whose version is not empty.\<close>

lemma lockHas_own: "map_of deps p = Some v \<Longrightarrow> lockHas deps p = (v \<noteq> [])"
  by (simp add: lockHas_def getProperty_def)

lemma lockHas_cong: "map_of deps p = map_of deps' p \<Longrightarrow> lockHas deps p = lockHas deps' p"
  by (simp add: lockHas_def getProperty_def)

lemma lockHas_empty: "lockHas [] p = (p \<in> set objectPrototype)"
  by (simp add: lockHas_def getProperty_def)

lemma extractPackage_frame:
  "lock (stateOf (extractPackage pkg v src s)) = lock s"
  "installedSet (stateOf (extractPackage pkg v src s)) = installedSet s"
  "lockFile (stateOf (extractPackage pkg v src s)) = lockFile s"
  "cache (stateOf (extractPackage pkg v src s)) = cache s"
  by (simp_all add: extractPackage_def Let_def split: source.splits archive.splits)

lemma download_frame:
  "lock (stateOf (download e pkg v url s)) = lock s"
  "installedSet (stateOf (download e pkg v url s)) = installedSet s"
  "lockFile (stateOf (download e pkg v url s)) = lockFile s"
  by (simp_all add: download_def Let_def extractPackage_frame
      split: response.splits option.splits body.splits)

text \<open>
  Up to the end of the extraction, installPackage changes neither the lock, nor the lock
  file, nor the set of installed names.
\<close>

lemma acquire_frame:
  "lock (stateOf (acquire e pkg rng s)) = lock s"
  "installedSet (stateOf (acquire e pkg rng s)) = installedSet s"
  "lockFile (stateOf (acquire e pkg rng s)) = lockFile s"
  by (simp_all add: acquire_def Let_def extractPackage_frame download_frame
      split: response.splits resolution.splits option.splits cachefile.splits)

subsection \<open>The requests and extractions made for a package\<close>

lemma extractPackage_trace:
  "filter (concerns p) (trace (stateOf (extractPackage pkg v src s)))
     = filter (concerns p) (trace s)
         @ (if p = pkg \<and> (existsDir pkg s \<or> dirname pkg = [] \<or> existsDir (dirname pkg) s)
            then [Extract pkg] else [])"
  by (auto simp add: extractPackage_def Let_def concerns_def existsDir_def entries_def
      split: source.splits archive.splits)

lemma extractPackage_Extracted:
  "extractPackage pkg v src s = Extracted v' s' \<Longrightarrow>
     v' = v \<and> filter (concerns pkg) (trace s') = filter (concerns pkg) (trace s) @ [Extract pkg]"
  by (auto simp add: extractPackage_def Let_def concerns_def
      split: source.splits archive.splits if_splits)

lemma extractPackage_other:
  "p \<noteq> pkg \<Longrightarrow>
     filter (concerns p) (trace (stateOf (extractPackage pkg v src s))) = filter (concerns p) (trace s)"
  by (simp add: extractPackage_trace)

lemma download_Extracted:
  "download e pkg v url s = Extracted v' s' \<Longrightarrow>
     v' = v \<and> filter (concerns pkg) (trace s') = filter (concerns pkg) (trace s) @ [Extract pkg]"
  by (auto simp add: download_def Let_def concerns_def
      split: response.splits option.splits body.splits if_splits
      dest!: extractPackage_Extracted)

lemma download_other:
  "p \<noteq> pkg \<Longrightarrow>
     filter (concerns p) (trace (stateOf (download e pkg v url s))) = filter (concerns p) (trace s)"
  by (simp add: download_def Let_def extractPackage_other concerns_def
      split: response.splits option.splits body.splits)

text \<open>A package that gets extracted is requested once and extracted once.\<close>

lemma acquire_Extracted:
  "acquire e pkg rng s = Extracted v s' \<Longrightarrow>
     filter (concerns pkg) (trace s')
       = filter (concerns pkg) (trace s) @ [FetchMetadata pkg, Extract pkg]"
  by (auto simp add: acquire_def Let_def concerns_def
      split: response.splits resolution.splits option.splits cachefile.splits
      dest!: extractPackage_Extracted download_Extracted)

lemma acquire_other:
  "p \<noteq> pkg \<Longrightarrow>
     filter (concerns p) (trace (stateOf (acquire e pkg rng s))) = filter (concerns p) (trace s)"
  by (simp add: acquire_def Let_def extractPackage_other download_other concerns_def
      split: response.splits resolution.splits option.splits cachefile.splits)

subsection \<open>The ways a call of installPackage ends\<close>

lemma installPackage_locked:
  assumes "lockHas (lock s) (fst (parseSpec spec))"
  shows "installPackage (Suc n) e spec depth s
           = Some (Done (alreadyInstalled (fst (parseSpec spec)) (cacheSetup e s)))"
  using assms by (simp add: Let_def)

lemma failed_branch:
  assumes "\<not> lockHas (lock s) (fst (parseSpec spec))"
    and "acquire e (fst (parseSpec spec)) (snd (parseSpec spec)) (cacheSetup e s) = Failed s'"
  shows "installPackage (Suc n) e spec depth s = Some (Done s')"
  using assms by (simp add: Let_def)

lemma stuck_branch:
  assumes "\<not> lockHas (lock s) (fst (parseSpec spec))"
    and "acquire e (fst (parseSpec spec)) (snd (parseSpec spec)) (cacheSetup e s) = Stuck s'"
  shows "installPackage (Suc n) e spec depth s = Some (Hung s')"
  using assms by (simp add: Let_def)

lemma installPackage_Suc_cases:
  assumes "installPackage (Suc n) e spec d s = Some r"
    and "pkg = fst (parseSpec spec)" and "rng = snd (parseSpec spec)"
  obtains
    (locked) "lockHas (lock s) pkg" "r = Done (alreadyInstalled pkg (cacheSetup e s))"
  | (failed) s' where "\<not> lockHas (lock s) pkg" "acquire e pkg rng (cacheSetup e s) = Failed s'"
      "r = Done s'"
  | (stuck) s' where "\<not> lockHas (lock s) pkg" "acquire e pkg rng (cacheSetup e s) = Stuck s'"
      "r = Hung s'"
  | (leaf) v s1 where "\<not> lockHas (lock s) pkg"
      "acquire e pkg rng (cacheSetup e s) = Extracted v s1"
      "manifestOf pkg (recordInstall pkg v s1) = NoManifest"
      "r = Done (completed d pkg v (recordInstall pkg v s1))"
  | (bad) v s1 where "\<not> lockHas (lock s) pkg"
      "acquire e pkg rng (cacheSetup e s) = Extracted v s1"
      "manifestOf pkg (recordInstall pkg v s1) = BadManifest"
      "r = Done (caught pkg SyntaxError (recordInstall pkg v s1))"
  | (deps) v s1 ds s3 where "\<not> lockHas (lock s) pkg"
      "acquire e pkg rng (cacheSetup e s) = Extracted v s1"
      "manifestOf pkg (recordInstall pkg v s1) = Manifest ds"
      "installDeps n e ds (Suc d) (recordInstall pkg v s1) = Some (Done s3)"
      "r = Done (completed d pkg v s3)"
  | (hung) v s1 ds s3 where "\<not> lockHas (lock s) pkg"
      "acquire e pkg rng (cacheSetup e s) = Extracted v s1"
      "manifestOf pkg (recordInstall pkg v s1) = Manifest ds"
      "installDeps n e ds (Suc d) (recordInstall pkg v s1) = Some (Hung s3)"
      "r = Hung s3"
  using assms
  by (auto simp: Let_def split: if_splits acquired.splits manifest.splits option.splits run.splits)

text \<open>One round of the loop over the dependencies.\<close>

lemma installDeps_Cons_cases:
  assumes "installDeps n e (x # ds) d s = Some r"
  obtains
    (skip) "fst x \<in> installedSet s" "installDeps n e ds d s = Some r"
  | (stay) s1 where "fst x \<notin> installedSet s"
      "installPackage n e (fst x @ ''@'' @ snd x) d s = Some (Hung s1)" "r = Hung s1"
  | (go) s1 where "fst x \<notin> installedSet s"
      "installPackage n e (fst x @ ''@'' @ snd x) d s = Some (Done s1)"
      "installDeps n e ds d s1 = Some r"
  using assms by (auto split: if_splits option.splits run.splits)

subsection \<open>A package that the lock holds is left alone\<close>

lemma keeps_refl: "keeps p s s"
  by (simp add: keeps_def)

lemma keeps_trans: "keeps p s s1 \<Longrightarrow> keeps p s1 s2 \<Longrightarrow> keeps p s s2"
  by (auto simp: keeps_def)

lemma keeps_completed: "keeps p s s' \<Longrightarrow> keeps p s (completed d pkg v s')"
  by (auto simp: keeps_def completed_def concerns_def)

lemma keeps_caught: "keeps p s s' \<Longrightarrow> keeps p s (caught pkg x s')"
  by (auto simp: keeps_def concerns_def)

lemma keeps_alreadyInstalled: "keeps p s (alreadyInstalled pkg (cacheSetup e s))"
  by (auto simp: keeps_def)

lemma keeps_acquire:
  assumes "p \<noteq> pkg"
  shows "keeps p s (stateOf (acquire e pkg rng (cacheSetup e s)))"
  using assms by (simp add: keeps_def acquire_frame acquire_other)

lemma keeps_recordInstall: "p \<noteq> pkg \<Longrightarrow> keeps p s s' \<Longrightarrow> keeps p s (recordInstall pkg v s')"
  by (auto simp: keeps_def recordInstall_def map_of_assign)

lemma keeps_lockHas: "keeps p s s' \<Longrightarrow> lockHas (lock s') p = lockHas (lock s) p"
  by (rule lockHas_cong) (simp add: keeps_def)

text \<open>
  By induction on the number of nested calls allowed, for installPackage and for the
  loop over the dependencies together; the loop is handled by an inner induction on the
  list of dependencies.
\<close>

lemma locked_kept_aux:
  "(\<forall>spec d s r. lockHas (lock s) p \<longrightarrow> installPackage n e spec d s = Some r
        \<longrightarrow> keeps p s (stateOfRun r))
   \<and> (\<forall>ds d s r. lockHas (lock s) p \<longrightarrow> installDeps n e ds d s = Some r
        \<longrightarrow> keeps p s (stateOfRun r))"
proof (induction n)
  case 0
  have "lockHas (lock s) p \<Longrightarrow> installDeps 0 e ds d s = Some r \<Longrightarrow> keeps p s (stateOfRun r)"
    for ds d s r
    by (induction ds arbitrary: s) (auto simp: keeps_refl split: if_splits)
  then show ?case
    by auto
next
  case (Suc n)
  have pk: "keeps p s (stateOfRun r)"
    if t: "lockHas (lock s) p" and run: "installPackage (Suc n) e spec d s = Some r"
    for spec d s r
  proof -
    define pkg where "pkg = fst (parseSpec spec)"
    define rng where "rng = snd (parseSpec spec)"
    from run pkg_def rng_def show ?thesis
    proof (cases rule: installPackage_Suc_cases)
      case locked
      then show ?thesis
        by (simp add: keeps_alreadyInstalled)
    next
      case (failed s')
      with t have "p \<noteq> pkg"
        by auto
      from keeps_acquire [OF this, of s e rng] failed show ?thesis
        by simp
    next
      case (stuck s')
      with t have "p \<noteq> pkg"
        by auto
      from keeps_acquire [OF this, of s e rng] stuck show ?thesis
        by simp
    next
      case (leaf v s1)
      with t have ne: "p \<noteq> pkg"
        by auto
      from keeps_acquire [OF ne, of s e rng] leaf have "keeps p s s1"
        by simp
      with ne leaf show ?thesis
        by (simp add: keeps_completed keeps_recordInstall)
    next
      case (bad v s1)
      with t have ne: "p \<noteq> pkg"
        by auto
      from keeps_acquire [OF ne, of s e rng] bad have "keeps p s s1"
        by simp
      with ne bad show ?thesis
        by (simp add: keeps_caught keeps_recordInstall)
    next
      case (deps v s1 ds s3)
      with t have ne: "p \<noteq> pkg"
        by auto
      from keeps_acquire [OF ne, of s e rng] deps have "keeps p s s1"
        by simp
      with ne have k2: "keeps p s (recordInstall pkg v s1)"
        by (simp add: keeps_recordInstall)
      with t have "lockHas (lock (recordInstall pkg v s1)) p"
        by (simp add: keeps_lockHas)
      with Suc.IH deps have "keeps p (recordInstall pkg v s1) (stateOfRun (Done s3))"
        by blast
      with k2 deps show ?thesis
        by (auto intro: keeps_trans keeps_completed)
    next
      case (hung v s1 ds s3)
      with t have ne: "p \<noteq> pkg"
        by auto
      from keeps_acquire [OF ne, of s e rng] hung have "keeps p s s1"
        by simp
      with ne have k2: "keeps p s (recordInstall pkg v s1)"
        by (simp add: keeps_recordInstall)
      with t have "lockHas (lock (recordInstall pkg v s1)) p"
        by (simp add: keeps_lockHas)
      with Suc.IH hung have "keeps p (recordInstall pkg v s1) (stateOfRun (Hung s3))"
        by blast
      with k2 hung show ?thesis
        by (auto intro: keeps_trans)
    qed
  qed
  have "lockHas (lock s) p \<Longrightarrow> installDeps (Suc n) e ds d s = Some r \<Longrightarrow> keeps p s (stateOfRun r)"
    for ds d s r
  proof (induction ds arbitrary: s)
    case Nil
    then show ?case
      by (auto simp: keeps_refl)
  next
    case (Cons x ds)
    from Cons.prems(2) show ?case
    proof (cases rule: installDeps_Cons_cases)
      case skip
      with Cons show ?thesis
        by simp
    next
      case (stay s1)
      with pk [OF Cons.prems(1) stay(2)] show ?thesis
        by simp
    next
      case (go s1)
      from pk [OF Cons.prems(1) go(2)] have k1: "keeps p s s1"
        by simp
      with Cons.prems(1) have "lockHas (lock s1) p"
        by (simp add: keeps_lockHas)
      from Cons.IH [OF this go(3)] k1 show ?thesis
        by (blast intro: keeps_trans)
    qed
  qed
  with pk show ?case
    by blast
qed

lemma locked_kept:
  "lockHas (lock s) p \<Longrightarrow> installDeps n e ds d s = Some r \<Longrightarrow> keeps p s (stateOfRun r)"
  using locked_kept_aux by blast

subsection \<open>The cache directory stays in place\<close>

lemma ready_cacheSetup: "ready e (cacheSetup e s)"
  by (simp add: ready_def cacheSetup_def)

lemma cacheSetup_ready: "ready e s \<Longrightarrow> cacheSetup e s = s"
  by (simp add: ready_def cacheSetup_def)

lemma ready_simps [simp]:
  "ready e (emit ev s) = ready e s" "ready e (caught p x s) = ready e s"
  "ready e (completed d p v s) = ready e s" "ready e (recordInstall p v s) = ready e s"
  "ready e (alreadyInstalled p s) = ready e s"
  by (simp_all add: ready_def completed_def recordInstall_def alreadyInstalled_def)

lemma ready_extractPackage: "ready e s \<Longrightarrow> ready e (stateOf (extractPackage pkg v src s))"
  by (simp add: ready_def extractPackage_frame)

lemma ready_download: "ready e s \<Longrightarrow> ready e (stateOf (download e pkg v url s))"
  by (auto simp add: download_def Let_def ready_def extractPackage_frame
      split: response.splits option.splits body.splits)

lemma ready_acquire: "ready e s \<Longrightarrow> ready e (stateOf (acquire e pkg rng s))"
  by (auto simp add: acquire_def Let_def
      split: response.splits resolution.splits option.splits cachefile.splits
      intro: ready_extractPackage ready_download)

lemma ready_aux:
  "(\<forall>spec d s r. installPackage n e spec d s = Some r \<longrightarrow> ready e (stateOfRun r))
   \<and> (\<forall>ds d s r. ready e s \<longrightarrow> installDeps n e ds d s = Some r \<longrightarrow> ready e (stateOfRun r))"
proof (induction n)
  case 0
  have "ready e s \<Longrightarrow> installDeps 0 e ds d s = Some r \<Longrightarrow> ready e (stateOfRun r)" for ds d s r
    by (induction ds arbitrary: s) (auto split: if_splits)
  then show ?case
    by auto
next
  case (Suc n)
  have pk: "ready e (stateOfRun r)" if run: "installPackage (Suc n) e spec d s = Some r"
    for spec d s r
  proof -
    define pkg where "pkg = fst (parseSpec spec)"
    define rng where "rng = snd (parseSpec spec)"
    have r: "ready e (stateOf (acquire e pkg rng (cacheSetup e s)))"
      by (rule ready_acquire [OF ready_cacheSetup])
    from run pkg_def rng_def show ?thesis
    proof (cases rule: installPackage_Suc_cases)
      case locked
      then show ?thesis
        by (simp add: ready_cacheSetup)
    next
      case (failed s')
      with r show ?thesis
        by simp
    next
      case (stuck s')
      with r show ?thesis
        by simp
    next
      case (leaf v s1)
      with r show ?thesis
        by simp
    next
      case (bad v s1)
      with r show ?thesis
        by simp
    next
      case (deps v s1 ds s3)
      with r have "ready e (recordInstall pkg v s1)"
        by simp
      with Suc.IH deps have "ready e (stateOfRun (Done s3))"
        by blast
      with deps show ?thesis
        by simp
    next
      case (hung v s1 ds s3)
      with r have "ready e (recordInstall pkg v s1)"
        by simp
      with Suc.IH hung have "ready e (stateOfRun (Hung s3))"
        by blast
      with hung show ?thesis
        by simp
    qed
  qed
  have "ready e s \<Longrightarrow> installDeps (Suc n) e ds d s = Some r \<Longrightarrow> ready e (stateOfRun r)"
    for ds d s r
  proof (induction ds arbitrary: s)
    case Nil
    then show ?case
      by auto
  next
    case (Cons x ds)
    from Cons.prems(2) show ?case
    proof (cases rule: installDeps_Cons_cases)
      case skip
      with Cons show ?thesis
        by simp
    next
      case (stay s1)
      with pk [OF stay(2)] show ?thesis
        by simp
    next
      case (go s1)
      from pk [OF go(2)] have "ready e s1"
        by simp
      from Cons.IH [OF this go(3)] show ?thesis .
    qed
  qed
  with pk show ?case
    by blast
qed

lemma installPackage_ready: "installPackage n e spec d s = Some r \<Longrightarrow> ready e (stateOfRun r)"
  using ready_aux by blast

subsection \<open>Installing the same package twice\<close>

text \<open>
  A call that extracts a version of a package for which the lock check did not pass ends
  with the package in the lock and in the set of installed names, after one request to
  the registry and one extraction for it, whatever its dependencies are.
\<close>

lemma install_records:
  assumes nl: "\<not> lockHas (lock s) (fst (parseSpec spec))"
    and acq: "acquire e (fst (parseSpec spec)) (snd (parseSpec spec)) (cacheSetup e s)
                = Extracted v sa"
    and v: "v \<noteq> []"
    and run: "installPackage n e spec depth s = Some r"
  shows "lockHas (lock (stateOfRun r)) (fst (parseSpec spec))
       \<and> fst (parseSpec spec) \<in> installedSet (stateOfRun r)
       \<and> filter (concerns (fst (parseSpec spec))) (trace (stateOfRun r))
           = filter (concerns (fst (parseSpec spec))) (trace s)
               @ [FetchMetadata (fst (parseSpec spec)), Extract (fst (parseSpec spec))]"
proof -
  define pkg where "pkg = fst (parseSpec spec)"
  define rng where "rng = snd (parseSpec spec)"
  define s2 where "s2 = recordInstall pkg v sa"
  from run obtain m where n: "n = Suc m"
    by (cases n) auto
  have tr: "filter (concerns pkg) (trace sa)
              = filter (concerns pkg) (trace s) @ [FetchMetadata pkg, Extract pkg]"
    using acquire_Extracted [OF acq [folded pkg_def rng_def]] by simp
  have "map_of (lock s2) pkg = Some v"
    by (simp add: s2_def recordInstall_def map_of_assign)
  with v have s2: "lockHas (lock s2) pkg" "pkg \<in> installedSet s2" "trace s2 = trace sa"
    by (simp_all add: lockHas_own) (simp_all add: s2_def recordInstall_def)
  have goal: "lockHas (lock s') pkg \<and> pkg \<in> installedSet s'
       \<and> filter (concerns pkg) (trace s')
           = filter (concerns pkg) (trace s) @ [FetchMetadata pkg, Extract pkg]"
    if k: "keeps pkg s2 s'" for s'
    using keeps_lockHas [OF k] k s2 tr by (auto simp: keeps_def)
  from run [unfolded n] pkg_def rng_def have "keeps pkg s2 (stateOfRun r)"
  proof (cases rule: installPackage_Suc_cases)
    case locked
    with nl show ?thesis
      by (simp add: pkg_def)
  next
    case (failed s')
    with acq show ?thesis
      by (simp add: pkg_def rng_def)
  next
    case (stuck s')
    with acq show ?thesis
      by (simp add: pkg_def rng_def)
  next
    case (leaf v' s1')
    with acq show ?thesis
      by (simp add: pkg_def rng_def s2_def keeps_completed keeps_refl)
  next
    case (bad v' s1')
    with acq show ?thesis
      by (simp add: pkg_def rng_def s2_def keeps_caught keeps_refl)
  next
    case (deps v' s1' ds s3)
    with acq have "installDeps m e ds (Suc depth) s2 = Some (Done s3)"
      by (simp add: pkg_def rng_def s2_def)
    from locked_kept [OF s2(1) this] deps show ?thesis
      by (simp add: keeps_completed)
  next
    case (hung v' s1' ds s3)
    with acq have "installDeps m e ds (Suc depth) s2 = Some (Hung s3)"
      by (simp add: pkg_def rng_def s2_def)
    from locked_kept [OF s2(1) this] hung show ?thesis
      by simp
  qed
  from goal [OF this] show ?thesis
    by (simp add: pkg_def)
qed

lemma second_call_noop:
  assumes "installPackage n e spec depth s = Some (Done s1)"
    and "lockHas (lock s1) (fst (parseSpec spec))"
    and "fst (parseSpec spec) \<in> installedSet s1"
  shows "installPackage (Suc m) e spec depth s1 = Some (Done s1)"
  using assms installPackage_ready [OF assms(1)]
  by (simp add: installPackage_locked cacheSetup_ready alreadyInstalled_idem)

subsection \<open>Runs in the example worlds\<close>

lemmas world_defs =
  cycleEnv_def freshProject_def singleVersion_def offlineEnv_def brokenEnv_def
  emptyVersionLock_def cycleInstalled_def abortedEnv_def missingEnv_def scopedCycleEnv_def
  stalledProject_def partialProject_def

lemmas engine_defs =
  acquire_def download_def extractPackage_def cachedFile_def resolveVersion_def allVersions_def
  js_sort_def semverSatisfies_def startsWith_def truthy_def parseSpec_def cacheSetup_def
  recordInstall_def manifestOf_def entries_def existsDir_def dirname_def emit_def caught_def
  completed_def alreadyInstalled_def tarballName_def safePkg_def lockHas_def getProperty_def
  objectPrototype_def lockText_def finish_def unpack_def Let_def

lemma cycle_example:
  "installPackage (Suc (Suc n)) cycleEnv ''a'' 0 freshProject = Some (Done cycleInstalled)"
  by (simp add: world_defs engine_defs insert_commute)

lemma refetch_example:
  "installPackage (Suc (Suc n)) cycleEnv ''a'' 0 emptyVersionLock = Some (Done cycleInstalled)"
  by (simp add: world_defs engine_defs insert_commute)

subsection \<open>The lock check\<close>

text \<open>
  Claim C4, as the code has it. When the lock check passes for the package, as it does
  when the lock holds the name with a version string that is not empty, installPackage
  marks the name in the set of installed names and returns: no request to the registry,
  no download, no extraction, the lock, the lock file and the module directory as they
  were, whatever range the specifier asks for; and calling it again changes nothing at
  all. Hence, when a first call for which the check did not pass has extracted a version
  that is not the empty string and has returned, a second call with the same specifier
  is a no-op, and the two calls together have made one request to the registry and one
  extraction for the package.
\<close>

theorem locked_package_is_skipped:
  "(lockHas (lock s) (fst (parseSpec spec)) \<longrightarrow>
      (\<exists>s'. installPackage (Suc n) e spec depth s = Some (Done s')
         \<and> fst (parseSpec spec) \<in> installedSet s'
         \<and> lock s' = lock s \<and> lockFile s' = lockFile s \<and> nodeModules s' = nodeModules s
         \<and> filter networkOrExtract (trace s') = filter networkOrExtract (trace s)
         \<and> installPackage (Suc m) e spec depth s' = Some (Done s')))
   \<and> (map_of (lock s) (fst (parseSpec spec)) = Some w \<and> w \<noteq> [] \<longrightarrow>
        lockHas (lock s) (fst (parseSpec spec)))
   \<and> (\<not> lockHas (lock s) (fst (parseSpec spec))
        \<and> (\<exists>sa. acquire e (fst (parseSpec spec)) (snd (parseSpec spec)) (cacheSetup e s)
                    = Extracted v sa)
        \<and> v \<noteq> []
        \<and> installPackage k e spec depth s = Some (Done s1) \<longrightarrow>
      installPackage (Suc m) e spec depth s1 = Some (Done s1)
      \<and> filter (concerns (fst (parseSpec spec))) (trace s1)
          = filter (concerns (fst (parseSpec spec))) (trace s)
              @ [FetchMetadata (fst (parseSpec spec)), Extract (fst (parseSpec spec))])"
proof (intro conjI impI)
  assume t: "lockHas (lock s) (fst (parseSpec spec))"
  let ?s' = "alreadyInstalled (fst (parseSpec spec)) (cacheSetup e s)"
  have first: "installPackage (Suc n) e spec depth s = Some (Done ?s')"
    using t by (rule installPackage_locked)
  have "lockHas (lock ?s') (fst (parseSpec spec))"
    using t by simp
  then have "installPackage (Suc m) e spec depth ?s'
               = Some (Done (alreadyInstalled (fst (parseSpec spec)) (cacheSetup e ?s')))"
    by (rule installPackage_locked)
  then have again: "installPackage (Suc m) e spec depth ?s' = Some (Done ?s')"
    by (simp add: cacheSetup_alreadyInstalled alreadyInstalled_idem)
  show "\<exists>s'. installPackage (Suc n) e spec depth s = Some (Done s')
         \<and> fst (parseSpec spec) \<in> installedSet s'
         \<and> lock s' = lock s \<and> lockFile s' = lockFile s \<and> nodeModules s' = nodeModules s
         \<and> filter networkOrExtract (trace s') = filter networkOrExtract (trace s)
         \<and> installPackage (Suc m) e spec depth s' = Some (Done s')"
    unfolding first using again by simp
next
  assume "map_of (lock s) (fst (parseSpec spec)) = Some w \<and> w \<noteq> []"
  then show "lockHas (lock s) (fst (parseSpec spec))"
    by (simp add: lockHas_own)
next
  assume h: "\<not> lockHas (lock s) (fst (parseSpec spec))
        \<and> (\<exists>sa. acquire e (fst (parseSpec spec)) (snd (parseSpec spec)) (cacheSetup e s)
                    = Extracted v sa)
        \<and> v \<noteq> []
        \<and> installPackage k e spec depth s = Some (Done s1)"
  then obtain sa where nl: "\<not> lockHas (lock s) (fst (parseSpec spec))"
    and acq: "acquire e (fst (parseSpec spec)) (snd (parseSpec spec)) (cacheSetup e s)
                = Extracted v sa"
    and v: "v \<noteq> []" and run: "installPackage k e spec depth s = Some (Done s1)"
    by blast
  from install_records [OF nl acq v run]
  have rec: "lockHas (lock s1) (fst (parseSpec spec))" "fst (parseSpec spec) \<in> installedSet s1"
    "filter (concerns (fst (parseSpec spec))) (trace s1)
       = filter (concerns (fst (parseSpec spec))) (trace s)
           @ [FetchMetadata (fst (parseSpec spec)), Extract (fst (parseSpec spec))]"
    by simp_all
  from second_call_noop [OF run rec(1,2)]
  show "installPackage (Suc m) e spec depth s1 = Some (Done s1)" .
  from rec(3) show "filter (concerns (fst (parseSpec spec))) (trace s1)
          = filter (concerns (fst (parseSpec spec))) (trace s)
              @ [FetchMetadata (fst (parseSpec spec)), Extract (fst (parseSpec spec))]" .
qed

text \<open>
  In the first world the registry cannot be reached and the lock holds \<^verbatim>\<open>a\<close>:
  installing \<^verbatim>\<open>a@^9\<close> succeeds without a request. In the second, \<^verbatim>\<open>a\<close> is
  installed twice into a fresh project.
\<close>

theorem locked_package_is_skipped_witness:
  "(\<exists>s'. installPackage (Suc 0) offlineEnv ''a@^9'' 0 (freshProject\<lparr>lock := [(''a'', ''1.0.0'')]\<rparr>)
            = Some (Done s')
      \<and> ''a'' \<in> installedSet s' \<and> lock s' = [(''a'', ''1.0.0'')] \<and> nodeModules s' = None
      \<and> filter networkOrExtract (trace s') = [])
   \<and> installPackage (Suc 0) cycleEnv ''a'' 0 cycleInstalled = Some (Done cycleInstalled)
   \<and> filter (concerns ''a'') (trace cycleInstalled) = [FetchMetadata ''a'', Extract ''a'']"
proof -
  let ?s = "freshProject\<lparr>lock := [(''a'', ''1.0.0'')]\<rparr>"
  have name: "fst (parseSpec ''a@^9'') = ''a''" "fst (parseSpec ''a'') = ''a''"
    "snd (parseSpec ''a'') = None"
    by (simp_all add: parseSpec_def truthy_def)
  have own: "map_of (lock ?s) (fst (parseSpec ''a@^9'')) = Some ''1.0.0'' \<and> ''1.0.0'' \<noteq> []"
    by (simp add: name freshProject_def)
  from locked_package_is_skipped [of ?s "''a@^9''" _ _ _ _ "''1.0.0''",
      THEN conjunct2, THEN conjunct1, rule_format, OF own]
  have h1: "lockHas (lock ?s) (fst (parseSpec ''a@^9''))" .
  have h2: "\<not> lockHas (lock freshProject) (fst (parseSpec ''a''))
        \<and> (\<exists>sa. acquire cycleEnv (fst (parseSpec ''a'')) (snd (parseSpec ''a''))
                    (cacheSetup cycleEnv freshProject) = Extracted ''1.0.0'' sa)
        \<and> ''1.0.0'' \<noteq> []
        \<and> installPackage (Suc (Suc 0)) cycleEnv ''a'' 0 freshProject = Some (Done cycleInstalled)"
    unfolding name cycle_example by (simp add: world_defs engine_defs)
  from locked_package_is_skipped [of ?s "''a@^9''" 0 offlineEnv 0 0, THEN conjunct1, rule_format, OF h1]
  have part1: "\<exists>s'. installPackage (Suc 0) offlineEnv ''a@^9'' 0 ?s = Some (Done s')
      \<and> ''a'' \<in> installedSet s' \<and> lock s' = [(''a'', ''1.0.0'')] \<and> nodeModules s' = None
      \<and> filter networkOrExtract (trace s') = []"
    unfolding name by (auto simp: freshProject_def)
  from locked_package_is_skipped [of freshProject "''a''" _ cycleEnv 0 0 _ "''1.0.0''" "Suc (Suc 0)" cycleInstalled,
      THEN conjunct2, THEN conjunct2, rule_format, OF h2]
  have part2: "installPackage (Suc 0) cycleEnv ''a'' 0 cycleInstalled = Some (Done cycleInstalled)
      \<and> filter (concerns ''a'') (trace cycleInstalled) = [FetchMetadata ''a'', Extract ''a'']"
    unfolding name by (simp add: freshProject_def)
  from part1 part2 show ?thesis
    by blast
qed

text \<open>
  Claim C4 as stated fails for an entry that is there but falsy: the lock holds \<^verbatim>\<open>a\<close>
  with the empty string as its version, and installPackage requests, downloads and
  extracts \<^verbatim>\<open>a\<close> and rewrites the lock.
\<close>

theorem empty_version_entry_is_not_skipped:
  "map_of (lock emptyVersionLock) ''a'' = Some []
   \<and> installPackage (Suc (Suc 0)) cycleEnv ''a'' 0 emptyVersionLock = Some (Done cycleInstalled)
   \<and> FetchMetadata ''a'' \<in> set (trace cycleInstalled)
   \<and> Extract ''a'' \<in> set (trace cycleInstalled)
   \<and> lock cycleInstalled \<noteq> lock emptyVersionLock"
  unfolding refetch_example by (simp add: world_defs)

subsection \<open>Failures in a branch\<close>

lemma cachedFile_simps [simp]:
  "cachedFile e pkg v (emit ev s) = cachedFile e pkg v s"
  "cachedFile e pkg v (cacheSetup e s) = cachedFile e pkg v s"
  "cachedFile e pkg v (caught p x s) = cachedFile e pkg v s"
  "cachedFile e pkg v (recordInstall p w s) = cachedFile e pkg v s"
  by (auto simp: cachedFile_def cacheSetup_def recordInstall_def)

lemma extractPackage_bad:
  assumes "src = Throws x m \<or> src = Delivers (Corrupt m)"
  shows "\<exists>s'. extractPackage pkg v src s = Failed s' \<and> errorReport (last (trace s'))"
  using assms by (auto simp: extractPackage_def Let_def)

lemma download_bad:
  assumes "tarballs e url = NetworkError \<or> tarballs e url = NotOk
           \<or> tarballs e url = Ok (Broken m) \<or> tarballs e url = Ok (Stream (Corrupt m))"
  shows "\<exists>s'. download e pkg v url s = Failed s' \<and> errorReport (last (trace s'))"
proof -
  have ex: "\<exists>s'. extractPackage pkg v (Delivers (Corrupt m)) t = Failed s'
               \<and> errorReport (last (trace s'))" for t
    by (rule extractPackage_bad) simp
  have ex2: "\<exists>s'. extractPackage pkg v (Throws StreamError m) t = Failed s'
                \<and> errorReport (last (trace s'))" for t
    by (rule extractPackage_bad) simp
  from assms show ?thesis
    by (auto simp: download_def Let_def ex ex2 split: option.splits)
qed

text \<open>
  Each failure that the registry, the resolver or the archive can cause while the code
  listens ends the first part of installPackage with an error line as the last event.
\<close>

lemma acquire_fails:
  assumes "registry e pkg = NotOk \<or> registry e pkg = NetworkError
      \<or> (\<exists>meta avail. registry e pkg = Ok meta \<and> resolveVersion meta rng = NoVersion avail)
      \<or> (\<exists>meta v url. registry e pkg = Ok meta \<and> resolveVersion meta rng = Resolved (Some v)
            \<and> map_of (versions meta) v = Some url
            \<and> (cachedFile e pkg v s = None
                  \<and> (tarballs e url = NetworkError \<or> tarballs e url = NotOk
                      \<or> (\<exists>m. tarballs e url = Ok (Broken m))
                      \<or> (\<exists>m. tarballs e url = Ok (Stream (Corrupt m))))
                \<or> (\<exists>m. cachedFile e pkg v s = Some (Partial m))
                \<or> (\<exists>m. cachedFile e pkg v s = Some (Stored (Corrupt m)))))"
  shows "\<exists>s'. acquire e pkg rng s = Failed s' \<and> errorReport (last (trace s'))"
proof -
  have ex: "\<exists>s'. extractPackage pkg v (Delivers (Corrupt m)) t = Failed s'
               \<and> errorReport (last (trace s'))" for t v m
    by (rule extractPackage_bad) simp
  have ex2: "\<exists>s'. extractPackage pkg v (Throws TarError m) t = Failed s'
                \<and> errorReport (last (trace s'))" for t v m
    by (rule extractPackage_bad) simp
  from assms show ?thesis
    by (auto simp: acquire_def Let_def ex ex2 download_bad)
qed

text \<open>
  What the code does with the failures that it catches. A dependency whose
  installation fails (the registry does not know the package or cannot be reached, no
  version satisfies the range, or the download or the extraction of the archive errors
  while the code listens) does not stop the loop over the dependencies of its parent:
  the call for it returns, its last event is the error line, the lock, the lock file and
  the set of installed names are as before, and the loop goes on with the remaining
  siblings from that state.
\<close>

lemma failed_branch_returns:
  assumes "fst d \<notin> installedSet s"
    and "parseSpec (fst d @ ''@'' @ snd d) = (pkg, rng)"
    and "\<not> lockHas (lock s) pkg"
    and "registry e pkg = NotOk \<or> registry e pkg = NetworkError
      \<or> (\<exists>meta avail. registry e pkg = Ok meta \<and> resolveVersion meta rng = NoVersion avail)
      \<or> (\<exists>meta v url. registry e pkg = Ok meta \<and> resolveVersion meta rng = Resolved (Some v)
            \<and> map_of (versions meta) v = Some url
            \<and> (cachedFile e pkg v s = None
                  \<and> (tarballs e url = NetworkError \<or> tarballs e url = NotOk
                      \<or> (\<exists>m. tarballs e url = Ok (Broken m))
                      \<or> (\<exists>m. tarballs e url = Ok (Stream (Corrupt m))))
                \<or> (\<exists>m. cachedFile e pkg v s = Some (Partial m))
                \<or> (\<exists>m. cachedFile e pkg v s = Some (Stored (Corrupt m)))))"
  shows "\<exists>s'. installPackage (Suc n) e (fst d @ ''@'' @ snd d) depth s = Some (Done s')
            \<and> installDeps (Suc n) e (d # ds) depth s = installDeps (Suc n) e ds depth s'
            \<and> lock s' = lock s \<and> installedSet s' = installedSet s \<and> lockFile s' = lockFile s
            \<and> errorReport (last (trace s'))"
proof -
  from assms(4)
  have "\<exists>s'. acquire e pkg rng (cacheSetup e s) = Failed s' \<and> errorReport (last (trace s'))"
    by (intro acquire_fails) simp
  then obtain s' where acq: "acquire e pkg rng (cacheSetup e s) = Failed s'"
    and rep: "errorReport (last (trace s'))"
    by blast
  from assms(2,3) acq
  have run: "installPackage (Suc n) e (fst d @ ''@'' @ snd d) depth s = Some (Done s')"
    by (intro failed_branch) simp_all
  from acquire_frame [of e pkg rng "cacheSetup e s"] acq
  have "lock s' = lock s" "installedSet s' = installedSet s" "lockFile s' = lockFile s"
    by simp_all
  with run rep assms(1) show ?thesis
    by simp
qed

text \<open>
  What the code does with the one failure that it does not catch. The body of the
  archive of a dependency errors while the code waits, before it listens: the call for
  the dependency never settles, no error line is printed, and the loop over the
  dependencies of the parent never settles either, whatever siblings remain.
\<close>

lemma dirname_plain:
  assumes "CHR ''/'' \<notin> set p"
  shows "dirname p = []"
proof -
  have "\<forall>x \<in> set (rev p). x \<noteq> CHR ''/''"
    using assms by auto
  then have d: "dropWhile (\<lambda>c. c \<noteq> CHR ''/'') (rev p) = []"
    by (simp only: dropWhile_eq_Nil_conv)
  show ?thesis
    unfolding dirname_def d by simp
qed

lemma acquire_stuck:
  assumes "registry e pkg = Ok meta" and "resolveVersion meta rng = Resolved (Some v)"
    and "map_of (versions meta) v = Some url" and "cachedFile e pkg v s = None"
    and "tarballs e url = Ok Aborted" and "ready e s"
    and "cacheEnabled e \<or> CHR ''/'' \<notin> set pkg"
  shows "\<exists>s'. acquire e pkg rng s = Stuck s'
           \<and> filter errorReport (trace s') = filter errorReport (trace s)"
proof (cases "cacheEnabled e")
  case True
  with assms(6) obtain files where "cache s = Some files"
    by (auto simp: ready_def)
  with assms True show ?thesis
    by (simp add: acquire_def download_def Let_def)
next
  case False
  with assms(7) have "dirname pkg = []"
    by (simp add: dirname_plain)
  with assms False show ?thesis
    by (simp add: acquire_def download_def extractPackage_def Let_def)
qed

lemma early_error_stalls_loop:
  assumes "fst d \<notin> installedSet s"
    and "parseSpec (fst d @ ''@'' @ snd d) = (pkg, rng)"
    and "\<not> lockHas (lock s) pkg"
    and "registry e pkg = Ok meta" and "resolveVersion meta rng = Resolved (Some v)"
    and "map_of (versions meta) v = Some url" and "cachedFile e pkg v s = None"
    and "tarballs e url = Ok Aborted"
    and "cacheEnabled e \<or> CHR ''/'' \<notin> set pkg"
  shows "\<exists>s'. installDeps (Suc n) e (d # ds) depth s = Some (Hung s')
            \<and> filter errorReport (trace s') = filter errorReport (trace s)
            \<and> lock s' = lock s \<and> lockFile s' = lockFile s"
proof -
  have "cachedFile e pkg v (cacheSetup e s) = None"
    using assms(7) by simp
  from acquire_stuck [OF assms(4,5,6) this assms(8) ready_cacheSetup assms(9)]
  obtain s' where acq: "acquire e pkg rng (cacheSetup e s) = Stuck s'"
    and tr: "filter errorReport (trace s') = filter errorReport (trace s)"
    by auto
  from assms(2,3) acq
  have run: "installPackage (Suc n) e (fst d @ ''@'' @ snd d) depth s = Some (Hung s')"
    by (intro stuck_branch) simp_all
  from acquire_frame [of e pkg rng "cacheSetup e s"] acq
  have "lock s' = lock s" "lockFile s' = lockFile s"
    by simp_all
  with run tr assms(1) show ?thesis
    by simp
qed

text \<open>
  In \<open>cycleEnv\<close> the registry does not know \<^verbatim>\<open>ghost\<close>: a loop over the dependencies
  \<^verbatim>\<open>ghost\<close> and \<^verbatim>\<open>a\<close> reports the first and installs the second, and the tree
  that results is the partial one.
\<close>

lemma partial_tree_example:
  "map_option (lock \<circ> stateOfRun)
     (installDeps (Suc (Suc 0)) cycleEnv [(''ghost'', ''1.0.0''), (''a'', ''^1'')] 1 freshProject)
   = Some [(''a'', ''1.0.0''), (''b'', ''2.0.0'')]"
  by (simp add: world_defs engine_defs)

lemma missing_dependency_example:
  "installPackage (Suc (Suc n)) missingEnv ''root'' 0 freshProject = Some (Done partialProject)"
  by (simp add: world_defs engine_defs insert_commute)

lemma aborted_dependency_example:
  "installPackage (Suc (Suc n)) abortedEnv ''root'' 0 freshProject = Some (Hung stalledProject)"
  by (simp add: world_defs engine_defs insert_commute)

text \<open>
  Claim C3 does not hold of the code. Package \<^verbatim>\<open>root\<close> depends on \<^verbatim>\<open>flaky\<close> and on
  \<^verbatim>\<open>leaf\<close>, and the download of \<^verbatim>\<open>flaky\<close> errors during the 100 ms that the code
  waits before it attaches its \<^verbatim>\<open>'error'\<close> listeners. The failure is not caught and
  not reported, the branch of \<^verbatim>\<open>flaky\<close> never ends, its sibling \<^verbatim>\<open>leaf\<close> is never
  requested, \<^verbatim>\<open>root\<close> never completes, and the install command never comes to its
  end. When the registry does not know \<^verbatim>\<open>flaky\<close>, the same tree is installed as the
  claim says: one error line, \<^verbatim>\<open>leaf\<close> installed, \<^verbatim>\<open>root\<close> completed.
\<close>

theorem early_stream_error_stalls_install:
  "tarballs abortedEnv ''https://r/flaky.tgz'' = Ok Aborted
   \<and> installPackage (Suc (Suc n)) abortedEnv ''root'' 0 freshProject = Some (Hung stalledProject)
   \<and> filter errorReport (trace stalledProject) = []
   \<and> FetchMetadata ''leaf'' \<notin> set (trace stalledProject)
   \<and> map_of (lock stalledProject) ''leaf'' = None
   \<and> ConsoleLog ''Installed root@1.0.0 and dependencies.'' \<notin> set (trace stalledProject)
   \<and> install_action (Suc (Suc n)) abortedEnv (Some ''root'') freshProject
       = Some (Stalled, stalledProject)
   \<and> registry missingEnv ''flaky'' = NotOk
   \<and> installPackage (Suc (Suc n)) missingEnv ''root'' 0 freshProject = Some (Done partialProject)
   \<and> filter errorReport (trace partialProject)
       = [ConsoleError (''Error: Package '' @ [CHR 0x27] @ ''flaky'' @ [CHR 0x27]
                          @ '' not found in npm registry.'')]
   \<and> map_of (lock partialProject) ''leaf'' = Some ''1.0.0''
   \<and> ConsoleLog ''Installed root@1.0.0 and dependencies.'' \<in> set (trace partialProject)"
proof -
  have "install_action (Suc (Suc n)) abortedEnv (Some ''root'') freshProject
          = map_option (\<lambda>r. case r of Done s' \<Rightarrow> (Returned, s') | Hung s' \<Rightarrow> (Stalled, s'))
              (installPackage (Suc (Suc n)) abortedEnv ''root'' 0 freshProject)"
    by (simp add: install_action_def loadLock_def truthy_def freshProject_def
        del: installPackage.simps)
  then have "install_action (Suc (Suc n)) abortedEnv (Some ''root'') freshProject
          = Some (Stalled, stalledProject)"
    unfolding aborted_dependency_example by simp
  moreover have "tarballs abortedEnv ''https://r/flaky.tgz'' = Ok Aborted"
    "registry missingEnv ''flaky'' = NotOk"
    by (simp_all add: abortedEnv_def missingEnv_def)
  moreover have "filter errorReport (trace stalledProject) = []"
    "FetchMetadata ''leaf'' \<notin> set (trace stalledProject)"
    "map_of (lock stalledProject) ''leaf'' = None"
    "ConsoleLog ''Installed root@1.0.0 and dependencies.'' \<notin> set (trace stalledProject)"
    by (simp_all add: stalledProject_def)
  moreover have "filter errorReport (trace partialProject)
       = [ConsoleError (''Error: Package '' @ [CHR 0x27] @ ''flaky'' @ [CHR 0x27]
                          @ '' not found in npm registry.'')]"
    "map_of (lock partialProject) ''leaf'' = Some ''1.0.0''"
    "ConsoleLog ''Installed root@1.0.0 and dependencies.'' \<in> set (trace partialProject)"
    by (simp_all add: partialProject_def)
  ultimately show ?thesis
    unfolding aborted_dependency_example missing_dependency_example by simp
qed

subsection \<open>Installing from the lock file\<close>





section \<open>Properties of the commands\<close>



lemma exitCode_simps [simp]:
  "exitCode Returned = Some 0" "exitCode (Exit c) = Some c" "exitCode (Unhandled x) = Some 1"
  "exitCode Stalled = None"
  by (simp_all add: exitCode_def)









section \<open>Properties of the cache\<close>

lemma extractPackage_Throws:
  "\<exists>s'. extractPackage pkg v (Throws x m) s = Failed s' \<and> cache s' = cache s
     \<and> filter isDownload (trace s') = filter isDownload (trace s)"
  by (auto simp: extractPackage_def Let_def)

text \<open>
  Claim C6, as the code has it. With a cache directory configured, a download whose
  body errors, while the code pipes it into the cache file or before, leaves in the
  cache the file that \<^verbatim>\<open>createWriteStream\<close> made, with what had arrived, whether
  the call returns or never settles; nothing is extracted or recorded. Any later call
  for the same specifier that finds the cache as it was left, in the same run or in a
  new one, takes the file for a cache hit: it returns without a download, and the file
  is still there afterwards.
\<close>

theorem broken_download_stays_in_cache:
  assumes "cacheEnabled e" and "parseSpec spec = (pkg, rng)"
    and "\<not> lockHas (lock s) pkg"
    and "registry e pkg = Ok meta" and "resolveVersion meta rng = Resolved (Some v)"
    and "map_of (versions meta) v = Some url"
    and "cachedFile e pkg v s = None"
    and "tarballs e url = Ok (Broken m) \<or> tarballs e url = Ok Aborted"
  shows "\<exists>r part. installPackage (Suc n) e spec depth s = Some r
           \<and> cachedFile e pkg v (stateOfRun r) = Some (Partial part)
           \<and> lock (stateOfRun r) = lock s \<and> lockFile (stateOfRun r) = lockFile s
           \<and> nodeModules (stateOfRun r) = nodeModules s
           \<and> (\<forall>t. cache t = cache (stateOfRun r) \<and> \<not> lockHas (lock t) pkg \<longrightarrow>
                (\<exists>s''. installPackage (Suc k) e spec depth t = Some (Done s'')
                   \<and> filter isDownload (trace s'') = filter isDownload (trace t)
                   \<and> cachedFile e pkg v s'' = Some (Partial part)))"
proof -
  define files where "files = (case cache s of None \<Rightarrow> [] | Some fs \<Rightarrow> fs)"
  define part where "part = (if tarballs e url = Ok (Broken m) then m else NoManifest)"
  define s1 where "s1 = (emit (DownloadTarball url) (emit (FetchMetadata pkg) (cacheSetup e s)))
                          \<lparr>cache := Some (assign (tarballName pkg v) (Partial part) files)\<rparr>"
  define r where "r = (if tarballs e url = Ok (Broken m) then Done (caught pkg StreamError s1)
                       else Hung s1)"
  have c0: "cache (cacheSetup e s) = Some files"
    using assms(1) by (simp add: cacheSetup_def files_def split: option.splits)
  have acq: "acquire e pkg rng (cacheSetup e s)
               = (if tarballs e url = Ok (Broken m) then Failed (caught pkg StreamError s1)
                  else Stuck s1)"
    using assms c0 by (auto simp: acquire_def download_def Let_def s1_def part_def)
  have run: "installPackage (Suc n) e spec depth s = Some r"
    using assms(2,3) acq by (simp add: Let_def r_def)
  have st: "cache (stateOfRun r) = Some (assign (tarballName pkg v) (Partial part) files)"
    "lock (stateOfRun r) = lock s" "lockFile (stateOfRun r) = lockFile s"
    "nodeModules (stateOfRun r) = nodeModules s"
    by (simp_all add: r_def s1_def)
  have cf: "cachedFile e pkg v (stateOfRun r) = Some (Partial part)"
    using assms(1) st(1) by (simp add: cachedFile_def map_of_assign)
  have later: "\<exists>s''. installPackage (Suc k) e spec depth t = Some (Done s'')
                   \<and> filter isDownload (trace s'') = filter isDownload (trace t)
                   \<and> cachedFile e pkg v s'' = Some (Partial part)"
    if t: "cache t = cache (stateOfRun r) \<and> \<not> lockHas (lock t) pkg" for t
  proof -
    from t st(1) have rdy: "cacheSetup e t = t"
      by (intro cacheSetup_ready) (simp add: ready_def)
    from t cf assms(1) have cft: "cachedFile e pkg v t = Some (Partial part)"
      by (simp add: cachedFile_def)
    from extractPackage_Throws [of pkg v TarError part "emit (FetchMetadata pkg) t"]
    obtain s'' where ex: "extractPackage pkg v (Throws TarError part) (emit (FetchMetadata pkg) t)
                            = Failed s''"
      and c2: "cache s'' = cache t"
      and tr2: "filter isDownload (trace s'') = filter isDownload (trace t)"
      by auto
    have acq2: "acquire e pkg rng t = Failed s''"
      using assms(4,5,6) cft ex by (simp add: acquire_def Let_def)
    from assms(2) t acq2 rdy have run2: "installPackage (Suc k) e spec depth t = Some (Done s'')"
      by (intro failed_branch) simp_all
    from c2 cft assms(1) have "cachedFile e pkg v s'' = Some (Partial part)"
      by (simp add: cachedFile_def)
    with run2 tr2 show ?thesis
      by simp
  qed
  from run cf st later show ?thesis
    by blast
qed

text \<open>
  In \<open>brokenEnv\<close> the download of \<^verbatim>\<open>a\<close> errors while it is piped into the cache
  file; \<^verbatim>\<open>a\<close> is installed into a fresh project, and then once more.
\<close>

theorem broken_download_stays_in_cache_witness:
  "\<exists>r part. installPackage (Suc 0) brokenEnv ''a'' 0 freshProject = Some r
      \<and> cachedFile brokenEnv ''a'' ''1.0.0'' (stateOfRun r) = Some (Partial part)
      \<and> lock (stateOfRun r) = [] \<and> lockFile (stateOfRun r) = Absent
      \<and> nodeModules (stateOfRun r) = None
      \<and> (\<exists>s''. installPackage (Suc 0) brokenEnv ''a'' 0 (stateOfRun r) = Some (Done s'')
            \<and> filter isDownload (trace s'') = filter isDownload (trace (stateOfRun r))
            \<and> cachedFile brokenEnv ''a'' ''1.0.0'' s'' = Some (Partial part))"
proof -
  have h1: "cacheEnabled brokenEnv"
    by (simp add: brokenEnv_def)
  have h2: "parseSpec ''a'' = (''a'', None)"
    by (simp add: parseSpec_def truthy_def)
  have h3: "\<not> lockHas (lock freshProject) ''a''"
    by (simp add: freshProject_def lockHas_empty objectPrototype_def)
  have h4: "registry brokenEnv ''a'' = Ok (singleVersion ''1.0.0'' ''https://r/a.tgz'')"
    by (simp add: brokenEnv_def)
  have h5: "resolveVersion (singleVersion ''1.0.0'' ''https://r/a.tgz'') None
              = Resolved (Some ''1.0.0'')"
    by (simp add: resolveVersion_def singleVersion_def truthy_def)
  have h6: "map_of (versions (singleVersion ''1.0.0'' ''https://r/a.tgz'')) ''1.0.0''
              = Some ''https://r/a.tgz''"
    by (simp add: singleVersion_def)
  have h7: "cachedFile brokenEnv ''a'' ''1.0.0'' freshProject = None"
    by (simp add: cachedFile_def freshProject_def)
  have h8: "tarballs brokenEnv ''https://r/a.tgz'' = Ok (Broken NoManifest)
              \<or> tarballs brokenEnv ''https://r/a.tgz'' = Ok Aborted"
    by (simp add: brokenEnv_def)
  from broken_download_stays_in_cache [OF h1 h2 h3 h4 h5 h6 h7 h8, of 0 0 0]
  obtain r part where r: "installPackage (Suc 0) brokenEnv ''a'' 0 freshProject = Some r"
    "cachedFile brokenEnv ''a'' ''1.0.0'' (stateOfRun r) = Some (Partial part)"
    "lock (stateOfRun r) = lock freshProject" "lockFile (stateOfRun r) = lockFile freshProject"
    "nodeModules (stateOfRun r) = nodeModules freshProject"
    and later: "\<forall>t. cache t = cache (stateOfRun r) \<and> \<not> lockHas (lock t) ''a'' \<longrightarrow>
                (\<exists>s''. installPackage (Suc 0) brokenEnv ''a'' 0 t = Some (Done s'')
                   \<and> filter isDownload (trace s'') = filter isDownload (trace t)
                   \<and> cachedFile brokenEnv ''a'' ''1.0.0'' s'' = Some (Partial part))"
    by blast
  from r(3) h3 have "cache (stateOfRun r) = cache (stateOfRun r) \<and> \<not> lockHas (lock (stateOfRun r)) ''a''"
    by simp
  with later obtain s'' where "installPackage (Suc 0) brokenEnv ''a'' 0 (stateOfRun r) = Some (Done s'')"
    "filter isDownload (trace s'') = filter isDownload (trace (stateOfRun r))"
    "cachedFile brokenEnv ''a'' ''1.0.0'' s'' = Some (Partial part)"
    by blast
  with r show ?thesis
    by (auto simp: freshProject_def simp del: installPackage.simps)
qed

text \<open>
  Claim C6 as stated fails: after the download has errored, the file is in the cache
  directory and a look-up of the package and version finds it.
\<close>

theorem partial_cache_file_is_left_behind:
  "tarballs brokenEnv ''https://r/a.tgz'' = Ok (Broken NoManifest)
   \<and> cachedFile brokenEnv ''a'' ''1.0.0'' freshProject = None
   \<and> map_option (cachedFile brokenEnv ''a'' ''1.0.0'' \<circ> stateOfRun)
        (installPackage (Suc 0) brokenEnv ''a'' 0 freshProject) = Some (Some (Partial NoManifest))"
  by (simp add: world_defs engine_defs)

section \<open>Circular dependencies\<close>

lemma manifestOf_simps [simp]:
  "manifestOf p (emit ev s) = manifestOf p s" "manifestOf p (caught q x s) = manifestOf p s"
  "manifestOf p (recordInstall q v s) = manifestOf p s"
  "manifestOf p (cacheSetup e s) = manifestOf p s"
  "manifestOf p (completed d q v s) = manifestOf p s"
  by (simp_all add: manifestOf_def entries_def emit_def caught_def recordInstall_def
      cacheSetup_def completed_def)

lemma extractPackage_ok:
  assumes "CHR ''/'' \<notin> set pkg" and "m \<noteq> NoManifest"
  shows "\<exists>s'. extractPackage pkg v (Delivers (Tar m)) s = Extracted v s'
           \<and> lock s' = lock s \<and> installedSet s' = installedSet s \<and> lockFile s' = lockFile s
           \<and> cache s' = cache s \<and> manifestOf pkg s' = m \<and> trace s' = trace s @ [Extract pkg]"
  using assms
  by (cases m)
    (auto simp: extractPackage_def unpack_def Let_def dirname_plain manifestOf_def entries_def
       map_of_assign)

text \<open>
  A package whose name is a single path component, with metadata, a resolvable version,
  no cache file yet and an archive that holds a \<^verbatim>\<open>package.json\<close>, is requested,
  downloaded and extracted; cache files of other names are not touched.
\<close>

lemma acquire_succeeds:
  assumes "registry e pkg = Ok meta" and "resolveVersion meta rng = Resolved (Some v)"
    and "map_of (versions meta) v = Some url" and "cachedFile e pkg v s = None"
    and "tarballs e url = Ok (Stream (Tar m))" and "m \<noteq> NoManifest"
    and "CHR ''/'' \<notin> set pkg" and "ready e s"
  shows "\<exists>s'. acquire e pkg rng s = Extracted v s'
           \<and> lock s' = lock s \<and> installedSet s' = installedSet s \<and> lockFile s' = lockFile s
           \<and> manifestOf pkg s' = m
           \<and> trace s' = trace s @ [FetchMetadata pkg, DownloadTarball url, Extract pkg]
           \<and> ready e s'
           \<and> (\<forall>q w. tarballName q w \<noteq> tarballName pkg v
                  \<longrightarrow> cachedFile e q w s' = cachedFile e q w s)"
proof (cases "cacheEnabled e")
  case False
  from extractPackage_ok [OF assms(7,6), of v "emit (DownloadTarball url) (emit (FetchMetadata pkg) s)"]
  obtain s' where
    "extractPackage pkg v (Delivers (Tar m)) (emit (DownloadTarball url) (emit (FetchMetadata pkg) s))
       = Extracted v s'"
    "lock s' = lock s" "installedSet s' = installedSet s" "lockFile s' = lockFile s"
    "cache s' = cache s" "manifestOf pkg s' = m"
    "trace s' = trace s @ [FetchMetadata pkg, DownloadTarball url, Extract pkg]"
    by auto
  with assms False show ?thesis
    by (simp add: acquire_def download_def Let_def ready_def cachedFile_def)
next
  case True
  with assms(8) obtain files where files: "cache s = Some files"
    by (auto simp: ready_def)
  let ?s1 = "(emit (DownloadTarball url) (emit (FetchMetadata pkg) s))
               \<lparr>cache := Some (assign (tarballName pkg v) (Stored (Tar m)) files)\<rparr>"
  from extractPackage_ok [OF assms(7,6), of v ?s1]
  obtain s' where "extractPackage pkg v (Delivers (Tar m)) ?s1 = Extracted v s'"
    "lock s' = lock s" "installedSet s' = installedSet s" "lockFile s' = lockFile s"
    "cache s' = Some (assign (tarballName pkg v) (Stored (Tar m)) files)" "manifestOf pkg s' = m"
    "trace s' = trace s @ [FetchMetadata pkg, DownloadTarball url, Extract pkg]"
    by auto
  with assms True files show ?thesis
    by (simp add: acquire_def download_def Let_def ready_def cachedFile_def map_of_assign)
qed

text \<open>
  The run on a cycle of two packages: the call for the second package finds the first
  in the set of installed names and does not call installPackage again.
\<close>

lemma cycle_run:
  assumes pa: "parseSpec specA = (a, rngA)" and la: "\<not> lockHas (lock s) a"
    and acqA: "acquire e a rngA (cacheSetup e s) = Extracted va sa"
    and manA: "manifestOf a sa = Manifest [(b, rb)]"
    and nb: "b \<noteq> a" "b \<notin> installedSet s" "\<not> lockHas (lock s) b"
    and pb: "parseSpec (b @ ''@'' @ rb) = (b, rngB)"
    and acqB: "acquire e b rngB (cacheSetup e (recordInstall a va sa)) = Extracted vb sb"
    and manB: "manifestOf b sb = Manifest [(a, ra)]"
  shows "installPackage (Suc (Suc n)) e specA depth s
           = Some (Done (completed depth a va (recordInstall b vb sb)))"
proof -
  let ?s2 = "recordInstall a va sa"
  have fa: "lock sa = lock s" "installedSet sa = installedSet s"
    using acquire_frame [of e a rngA "cacheSetup e s"] acqA by simp_all
  have "map_of (lock ?s2) b = map_of (lock s) b"
    using nb fa by (simp add: recordInstall_def map_of_assign)
  from lockHas_cong [OF this] nb(3) have lb: "\<not> lockHas (lock ?s2) b"
    by simp
  have fb: "installedSet sb = installedSet ?s2"
    using acquire_frame [of e b rngB "cacheSetup e ?s2"] acqB by simp
  have inner: "installPackage (Suc n) e (b @ ''@'' @ rb) (Suc depth) ?s2
                 = Some (Done (recordInstall b vb sb))"
    using pb lb acqB manB fb
    by (simp add: Let_def completed_def) (simp add: recordInstall_def)
  have "installDeps (Suc n) e [(b, rb)] (Suc depth) ?s2 = Some (Done (recordInstall b vb sb))"
    using nb fa inner by (simp add: recordInstall_def)
  with pa la acqA manA show ?thesis
    by (simp add: Let_def)
qed

text \<open>
  What the code does on a cycle of two packages whose names are single path components
  and are not names that every object inherits. Package \<^verbatim>\<open>a\<close> depends on \<^verbatim>\<open>b\<close> and
  \<^verbatim>\<open>b\<close> depends on \<^verbatim>\<open>a\<close>, their metadata resolve and the server delivers their
  archives. With an empty lock and an empty set of installed names, installPackage for
  \<^verbatim>\<open>a\<close> returns as soon as two nested calls are allowed, and each of the two packages
  has been requested, downloaded, extracted and recorded in the lock once.
\<close>

lemma unscoped_cycle_is_installed:
  assumes names: "a \<noteq> b" "a \<noteq> []" "CHR ''@'' \<notin> set a" "CHR ''/'' \<notin> set a"
      "b \<noteq> []" "CHR ''@'' \<notin> set b" "CHR ''/'' \<notin> set b"
    and plain: "a \<notin> set objectPrototype" "b \<notin> set objectPrototype"
    and start: "lock s = []" "installedSet s = {}"
    and regA: "registry e a = Ok ma" "map_of (distTags ma) ''latest'' = Some va"
      "map_of (versions ma) va = Some ua"
    and tarA: "tarballs e ua = Ok (Stream (Tar (Manifest [(b, rb)])))"
    and regB: "registry e b = Ok mb"
      "resolveVersion mb (snd (parseSpec (b @ ''@'' @ rb))) = Resolved (Some vb)"
      "map_of (versions mb) vb = Some ub"
    and tarB: "tarballs e ub = Ok (Stream (Tar (Manifest [(a, ra)])))"
    and fresh: "cachedFile e a va s = None" "cachedFile e b vb s = None"
      "\<not> cacheEnabled e \<or> tarballName a va \<noteq> tarballName b vb"
  shows "\<exists>s'. installPackage (Suc (Suc n)) e a 0 s = Some (Done s')
           \<and> lock s' = [(a, va), (b, vb)] \<and> lockFile s' = Parsed [(a, va), (b, vb)]
           \<and> installedSet s' = {a, b}
           \<and> trace s' = trace s @
                [FetchMetadata a, DownloadTarball ua, Extract a,
                 FetchMetadata b, DownloadTarball ub, Extract b,
                 ConsoleLog (''Installed '' @ a @ ''@'' @ va @ '' and dependencies.'')]"
proof -
  let ?s0 = "cacheSetup e s"
  have pa: "parseSpec a = (a, None)"
    using names(3) by (rule parseSpec_bare)
  have ra: "resolveVersion ma None = Resolved (Some va)"
    using regA(2) by (simp add: resolveVersion_def truthy_def)
  have c0: "cachedFile e a va ?s0 = None"
    using fresh(1) by simp
  from acquire_succeeds [OF regA(1) ra regA(3) c0 tarA _ names(4) ready_cacheSetup]
  obtain sa where acqA: "acquire e a None ?s0 = Extracted va sa"
    and fa: "lock sa = lock s" "installedSet sa = installedSet s" "lockFile sa = lockFile s"
    and manA: "manifestOf a sa = Manifest [(b, rb)]"
    and tra: "trace sa = trace s @ [FetchMetadata a, DownloadTarball ua, Extract a]"
    and rda: "ready e sa"
    and others: "\<forall>q w. tarballName q w \<noteq> tarballName a va
                   \<longrightarrow> cachedFile e q w sa = cachedFile e q w ?s0"
    by auto
  let ?s2 = "recordInstall a va sa"
  have rd2: "cacheSetup e ?s2 = ?s2"
    using rda by (intro cacheSetup_ready) simp
  have pb: "parseSpec (b @ ''@'' @ rb) = (b, snd (parseSpec (b @ ''@'' @ rb)))"
    using parseSpec_plain [OF names(6,5), of rb] by (simp add: prod_eq_iff)
  have cb: "cachedFile e b vb ?s2 = None"
  proof (cases "cacheEnabled e")
    case True
    with fresh(3) have "tarballName b vb \<noteq> tarballName a va"
      by auto
    with others fresh(2) show ?thesis
      by simp
  next
    case False
    then show ?thesis
      by (simp add: cachedFile_def)
  qed
  from acquire_succeeds [OF regB(1,2,3) cb tarB _ names(7)] rda
  obtain sb where acqB: "acquire e b (snd (parseSpec (b @ ''@'' @ rb))) ?s2 = Extracted vb sb"
    and fb: "lock sb = lock ?s2" "installedSet sb = installedSet ?s2" "lockFile sb = lockFile ?s2"
    and manB: "manifestOf b sb = Manifest [(a, ra)]"
    and trb: "trace sb = trace ?s2 @ [FetchMetadata b, DownloadTarball ub, Extract b]"
    by auto
  have la: "\<not> lockHas (lock s) a" and lb: "\<not> lockHas (lock s) b"
    and nb: "b \<notin> installedSet s"
    using start plain by (simp_all add: lockHas_empty)
  have acqB': "acquire e b (snd (parseSpec (b @ ''@'' @ rb))) (cacheSetup e ?s2) = Extracted vb sb"
    using acqB rd2 by simp
  from cycle_run [OF pa la acqA manA names(1) [symmetric] nb lb pb acqB' manB, of n 0]
  have run: "installPackage (Suc (Suc n)) e a 0 s
               = Some (Done (completed 0 a va (recordInstall b vb sb)))" .
  have l2: "lock ?s2 = [(a, va)]" "installedSet ?s2 = {a}" "trace ?s2 = trace sa"
    using fa start by (simp_all add: recordInstall_def)
  show ?thesis
    unfolding run using fb l2 trb tra names(1)
    by (auto simp: completed_def recordInstall_def emit_def)
qed

text \<open>
  A name that every object inherits from \<^verbatim>\<open>Object.prototype\<close> passes the lock check
  with an empty lock: nothing is requested, and nothing is installed.
\<close>

lemma inherited_name_is_taken_for_installed:
  "\<exists>s'. installPackage (Suc n) e ''constructor'' 0 freshProject = Some (Done s')
      \<and> lock s' = [] \<and> lockFile s' = Absent \<and> nodeModules s' = None
      \<and> trace s'
          = [ConsoleLog ''Already installed: constructor@function Object() { [native code] }'']"
  by (simp add: freshProject_def engine_defs)

lemma scoped_cycle_example:
  "installPackage (Suc (Suc n)) scopedCycleEnv ''@s/a'' 0 freshProject
     = Some (Done (freshProject
         \<lparr>nodeModules := Some [],
          trace := [FetchMetadata ''@s/a'', DownloadTarball ''https://r/s/a.tgz'',
                    InstallFailed ''@s/a'' ENOENT]\<rparr>))"
  by (simp add: world_defs engine_defs)

text \<open>
  Claim C5 does not hold of the code. The scoped packages \<^verbatim>\<open>@s/a\<close> and \<^verbatim>\<open>@s/b\<close>
  depend on each other, and \<^verbatim>\<open>@s/a\<close> is installed into a fresh project, with an empty
  lock and an empty set of installed names. The call returns, but
  \<^verbatim>\<open>fs.mkdirSync(pkgPath)\<close> has no \<^verbatim>\<open>recursive\<close> option and throws, because the
  directory \<^verbatim>\<open>node_modules/@s\<close> is not there: \<^verbatim>\<open>@s/a\<close> is requested and downloaded,
  but not extracted and not recorded in the lock, and \<^verbatim>\<open>@s/b\<close> is not even requested.
\<close>

theorem scoped_cycle_is_not_installed:
  "fst (parseSpec ''@s/a'') = ''@s/a''
   \<and> tarballs scopedCycleEnv ''https://r/s/a.tgz'' = Ok (Stream (Tar (Manifest [(''@s/b'', ''^2'')])))
   \<and> tarballs scopedCycleEnv ''https://r/s/b.tgz'' = Ok (Stream (Tar (Manifest [(''@s/a'', ''^1'')])))
   \<and> lock freshProject = [] \<and> installedSet freshProject = {}
   \<and> map_option (trace \<circ> stateOfRun)
        (installPackage (Suc (Suc n)) scopedCycleEnv ''@s/a'' 0 freshProject)
       = Some [FetchMetadata ''@s/a'', DownloadTarball ''https://r/s/a.tgz'',
               InstallFailed ''@s/a'' ENOENT]
   \<and> map_option (lock \<circ> stateOfRun)
        (installPackage (Suc (Suc n)) scopedCycleEnv ''@s/a'' 0 freshProject) = Some []
   \<and> map_option (lockFile \<circ> stateOfRun)
        (installPackage (Suc (Suc n)) scopedCycleEnv ''@s/a'' 0 freshProject) = Some Absent
   \<and> map_option (nodeModules \<circ> stateOfRun)
        (installPackage (Suc (Suc n)) scopedCycleEnv ''@s/a'' 0 freshProject) = Some (Some [])"
  unfolding scoped_cycle_example
  by (simp add: scopedCycleEnv_def freshProject_def parseSpec_def truthy_def)


end
